theory Spec2Isabelle
  imports Complex_Main
begin

section \<open>Reddit ETL pipeline (script.py): a shallow embedding\<close>

text \<open>
  The script defines one class, \<open>RedditETL\<close>, and a \<open>main\<close> function. The class talks to
  three outside parties: the Reddit API (through PRAW), a relational store (SQLite through
  \<open>sqlite3\<close> and pandas' \<open>to_sql\<close>) and the \<open>logging\<close> module. Here the API and the health of
  the database file are an environment (\<open>env\<close>), the tables, the log and the sequence of
  adapter calls are the state (\<open>world\<close>), and every method is a function from a state to a
  result and a new state. A raised exception is the result \<open>Inl e\<close>.

  Conventions of the embedding:
  \<^item> a Python \<open>str\<close> is a \<open>string\<close>, one \<open>char\<close> per code point (code points below 256);
  \<^item> a Python \<open>int\<close> is an \<open>int\<close>. The integers of a record are taken to lie in the range of
    \<open>int64\<close>, the range of an \<open>INTEGER\<close> column of the store: pandas holds such a column as
    \<open>int64\<close>, and the arithmetic of the column wraps around (\<open>wrap64\<close>);
  \<^item> a \<open>float64\<close> is a \<open>pyfloat\<close>: a finite float is the rational number it is, next to the
    two infinities and \<open>NaN\<close>; the result of an operation is rounded to the nearest float
    (\<open>float64\<close>); the two zeros of IEEE 754 are one value here;
  \<^item> \<open>time.sleep\<close> has no effect on any value and is left out.
\<close>

subsection \<open>Exceptions, log records, calls\<close>

text \<open>The subclasses of \<open>Exception\<close> that occur, by class.\<close>

datatype exn =
    TypeError
  | ValueError
  | ZeroDivisionError
  | IntegrityError
  | OperationalError
  | RequestException
  | MemoryError
  | OverflowError

datatype level = INFO | WARNING | ERROR

text \<open>
  A log record is a level and a message. A message that ends in the interpolation of a
  caught exception, \<open>f"...: {e}"\<close>, keeps the exception next to its prefix.
\<close>

datatype log_record = Log level string | LogExc level string exn

text \<open>The adapter calls one run makes, in order (instrumentation, not in the script).\<close>

datatype call =
    SetupDatabase
  | ExtractPosts string
  | LoadPosts nat
  | ExtractComments string
  | LoadComments nat
  | GenerateStats string

subsection \<open>Numbers and time\<close>

datatype pyfloat = Fin rat | PosInf | NegInf | NaN

text \<open>
  Arithmetic on \<open>int64\<close> wraps around: a result is reduced to the range from \<open>-2^63\<close> to
  \<open>2^63 - 1\<close>.
\<close>

definition wrap64 :: "int \<Rightarrow> int" where
  "wrap64 n = (n + 2 ^ 63) mod 2 ^ 64 - 2 ^ 63"

text \<open>
  The \<open>float64\<close> nearest to a rational number, ties to the even significand (the rounding of
  IEEE 754). A float is a multiple of a power of two, its unit: for a number between \<open>2^e\<close>
  and \<open>2^(e+1)\<close> the unit is \<open>2^(e-52)\<close>, and \<open>2^(-1074)\<close> below \<open>2^(-1022)\<close>. A magnitude that
  rounds to \<open>2^1024\<close> or more is an infinity.
\<close>

definition pow2 :: "int \<Rightarrow> rat" where
  "pow2 p = (if 0 \<le> p then 2 ^ nat p else 1 / 2 ^ nat (- p))"

function bit_length :: "int \<Rightarrow> nat" where
  "bit_length n = (if n \<le> 0 then 0 else Suc (bit_length (n div 2)))"
  by pat_completeness auto

termination bit_length
  by (relation "measure nat") auto

declare bit_length.simps [simp del]

text \<open>The \<open>e\<close> with \<open>2^e \<le> a < 2^(e+1)\<close>, for a positive \<open>a\<close>.\<close>

definition floor_log2 :: "rat \<Rightarrow> int" where
  "floor_log2 a =
     (let (n, d) = quotient_of a;
          k = int (bit_length n) - int (bit_length d)
      in if pow2 k \<le> a then k else k - 1)"

definition round_half_even :: "rat \<Rightarrow> int" where
  "round_half_even r =
     (let f = \<lfloor>r\<rfloor>; d = r - of_int f
      in if d < 1 / 2 then f else if 1 / 2 < d then f + 1 else if even f then f else f + 1)"

definition float64 :: "rat \<Rightarrow> pyfloat" where
  "float64 q =
     (if q = 0 then Fin 0
      else let a = \<bar>q\<bar>;
               u = pow2 (max (floor_log2 a) (- 1022) - 52);
               v = of_int (round_half_even (a / u)) * u
           in if pow2 1024 \<le> v then (if 0 < q then PosInf else NegInf)
              else Fin (if 0 < q then v else - v))"

text \<open>The division of two floats.\<close>

fun float_div :: "pyfloat \<Rightarrow> pyfloat \<Rightarrow> pyfloat" where
  "float_div (Fin a) (Fin b) =
     (if b = 0 then (if 0 < a then PosInf else if a < 0 then NegInf else NaN)
      else float64 (a / b))"
| "float_div (Fin a) PosInf = Fin 0"
| "float_div (Fin a) NegInf = Fin 0"
| "float_div PosInf (Fin b) = (if b < 0 then NegInf else PosInf)"
| "float_div NegInf (Fin b) = (if b < 0 then PosInf else NegInf)"
| "float_div x y = NaN"

text \<open>
  A \<open>datetime\<close>: the day number (days since 1970-01-01) and the second of the day.
\<close>

record datetime =
  dt_day :: int
  dt_sec :: nat

definition hour :: "datetime \<Rightarrow> nat" where
  "hour d = dt_sec d div 3600"

text \<open>\<open>dayofweek\<close>: Monday is 0; day 0 (1970-01-01) was a Thursday.\<close>

definition dayofweek :: "datetime \<Rightarrow> nat" where
  "dayofweek d = nat ((dt_day d + 3) mod 7)"

text \<open>\<open>datetime.fromtimestamp(t)\<close>: local time, \<open>off\<close> seconds east of UTC.\<close>

definition fromtimestamp :: "int \<Rightarrow> int \<Rightarrow> datetime" where
  "fromtimestamp off t =
     \<lparr>dt_day = (t + off) div 86400, dt_sec = nat ((t + off) mod 86400)\<rparr>"

text \<open>SQLite's \<open>DATE(x)\<close> of a stored timestamp: its calendar day.\<close>

definition DATE :: "datetime \<Rightarrow> int" where
  "DATE d = dt_day d"

subsection \<open>Rendering numbers in messages\<close>

definition digit :: "nat \<Rightarrow> char" where
  "digit n = char_of (48 + n)"

function str_nat :: "nat \<Rightarrow> string" where
  "str_nat n = (if n < 10 then [digit n] else str_nat (n div 10) @ [digit (n mod 10)])"
  by pat_completeness auto
termination
  by (relation "measure (\<lambda>n. n)") auto

definition str_int :: "int \<Rightarrow> string" where
  "str_int i = (if i < 0 then CHR ''-'' # str_nat (nat (- i)) else str_nat (nat i))"

subsection \<open>What the Reddit API hands out (PRAW objects)\<close>

text \<open>A \<open>Submission\<close>, with the attributes \<open>extract_posts\<close> reads.\<close>

record submission =
  s_id :: string
  s_title :: string
  s_author :: "string option"
  s_display_name :: string
  s_score :: int
  s_upvote_ratio :: pyfloat
  s_num_comments :: int
  s_created_utc :: int
  s_selftext :: string
  s_url :: string
  s_is_video :: bool
  s_is_original_content :: bool
  s_over_18 :: bool
  s_stickied :: bool
  s_locked :: bool

text \<open>A \<open>Comment\<close>, with the attributes \<open>extract_comments\<close> reads.\<close>

record praw_comment =
  k_id :: string
  k_author :: "string option"
  k_body :: string
  k_score :: int
  k_created_utc :: int
  k_parent_id :: string
  k_is_submitter :: bool

text \<open>
  A comment forest. A \<open>Comment\<close> has replies; a \<open>MoreComments\<close> object stands for a
  collapsed part of the tree, and carries here the nodes one more request to the API
  would put in its place.
\<close>

datatype node = Comment praw_comment "node list" | MoreComments "node list"

datatype feed = Hot | New | TopDay

subsection \<open>Records of the pipeline\<close>

text \<open>
  A value found under a numeric key of a raw record (\<open>Dict[Any, Any]\<close>): the integer the
  API gives, or a string, as a malformed record may hold.
\<close>

datatype pyval = PInt int | PStr string

text \<open>
  A post: the fifteen keys \<open>extract_posts\<close> fills, which are also the first fifteen
  columns of the data frame and of the \<open>posts\<close> table. \<open>'n\<close> is the type of the two
  numeric fields: \<open>pyval\<close> in a raw record, \<open>int\<close> in an \<open>int64\<close> column. The body is
  \<open>None\<close> when absent.
\<close>

record 'n post =
  ident :: string
  title :: string
  author :: string
  subreddit :: string
  score :: 'n
  upvote_ratio :: pyfloat
  num_comments :: 'n
  created_utc :: datetime
  selftext :: "string option"
  url :: string
  is_video :: bool
  is_original_content :: bool
  over_18 :: bool
  stickied :: bool
  locked :: bool

type_synonym raw_post = "pyval post"

text \<open>
  A row of the transformed frame: the post and its derived columns. A length is \<open>None\<close>
  where pandas holds \<open>NaN\<close>; a category is \<open>None\<close> where \<open>pd.cut\<close> gives \<open>NaN\<close>.
\<close>

record 'n enriched = "'n post" +
  title_length :: "nat option"
  selftext_length :: "nat option"
  has_selftext :: bool
  hour_posted :: nat
  day_of_week :: nat
  engagement_rate :: pyfloat
  score_category :: "string option"

type_synonym frame = "int enriched list"

text \<open>A row of the \<open>posts\<close> table: the frame's columns and \<open>extracted_at\<close>.\<close>

record 'n stored = "'n enriched" +
  extracted_at :: datetime

type_synonym stored_post = "int stored"

text \<open>A raw comment record, and a row of the \<open>comments\<close> table.\<close>

record comment =
  c_id :: string
  c_post_id :: string
  c_author :: string
  c_body :: string
  c_score :: int
  c_created_utc :: datetime
  c_parent_id :: string
  c_is_submitter :: bool

record stored_comment = comment +
  c_extracted_at :: datetime

text \<open>
  A row of \<open>subreddit_stats\<close>; primary key \<open>(subreddit, date)\<close>. The two averages are
  SQLite \<open>REAL\<close>s, kept as the exact quotient.
\<close>

record stat =
  st_subreddit :: string
  st_date :: int
  total_posts :: nat
  avg_score :: rat
  avg_comments :: rat
  top_post_score :: int

subsection \<open>Environment and state\<close>

text \<open>
  The environment of a run:
  \<^item> \<open>db_ok\<close>: \<open>sqlite3\<close> can open the database file and run statements on it;
  \<^item> \<open>now\<close>: the store's clock (\<open>CURRENT_TIMESTAMP\<close>, \<open>DATE('now')\<close>), taken as fixed
    during a run; \<open>tz_offset\<close>: the local zone of \<open>datetime.fromtimestamp\<close>;
  \<^item> \<open>listing\<close>: what a listing of a subreddit yields, or the error of the request;
  \<^item> \<open>comment_forest\<close>: the comment forest of a submission, or the error of the request;
  \<^item> \<open>nlargest_fault\<close>: the selection of the top posts, \<open>nlargest\<close>, is the one library
    call of \<open>run_pipeline\<close> outside every stage's own handler; the environment may make
    it raise (an error no stage expects).
\<close>

record env =
  db_ok :: bool
  now :: datetime
  tz_offset :: int
  listing :: "feed \<Rightarrow> string \<Rightarrow> exn + submission list"
  comment_forest :: "string \<Rightarrow> exn + node list"
  nlargest_fault :: "frame \<Rightarrow> exn option"

record world =
  tbl_posts :: "stored_post list"
  tbl_comments :: "stored_comment list"
  tbl_stats :: "stat list"
  logbook :: "log_record list"
  calls :: "call list"

subsection \<open>Statements that may raise\<close>

type_synonym 'a io = "world \<Rightarrow> (exn + 'a) \<times> world"

definition done_with :: "'a \<Rightarrow> 'a io" where
  "done_with x w = (Inr x, w)"

definition raise :: "exn \<Rightarrow> 'a io" where
  "raise e w = (Inl e, w)"

text \<open>Sequencing: an exception of the first statement skips the rest.\<close>

definition and_then :: "'a io \<Rightarrow> ('a \<Rightarrow> 'b io) \<Rightarrow> 'b io" where
  "and_then m f w = (case m w of (Inl e, w') \<Rightarrow> (Inl e, w') | (Inr x, w') \<Rightarrow> f x w')"

text \<open>\<open>try: m except Exception as e: h e\<close>.\<close>

definition try_except :: "'a io \<Rightarrow> (exn \<Rightarrow> 'a io) \<Rightarrow> 'a io" where
  "try_except m h w = (case m w of (Inl e, w') \<Rightarrow> h e w' | (Inr x, w') \<Rightarrow> (Inr x, w'))"

text \<open>A result computed without the state: it returns or raises.\<close>

definition lift :: "exn + 'a \<Rightarrow> 'a io" where
  "lift r w = (r, w)"

definition logger :: "log_record \<Rightarrow> unit io" where
  "logger r w = (Inr (), w\<lparr>logbook := logbook w @ [r]\<rparr>)"

definition note_call :: "call \<Rightarrow> unit io" where
  "note_call c w = (Inr (), w\<lparr>calls := calls w @ [c]\<rparr>)"

section \<open>The Feature Transformer: \<open>transform_data\<close>\<close>

subsection \<open>The pandas operations it uses\<close>

text \<open>
  \<open>Series.str.len()\<close>: the length of each string, \<open>NaN\<close> for a missing value.
\<close>

definition str_len :: "string option list \<Rightarrow> nat option list" where
  "str_len col = map (map_option length) col"

text \<open>\<open>series > 0\<close>: a comparison with \<open>NaN\<close> is false.\<close>

definition gt_zero :: "nat option list \<Rightarrow> bool list" where
  "gt_zero col = map (\<lambda>l. case l of None \<Rightarrow> False | Some n \<Rightarrow> 0 < n) col"

text \<open>An operation applied to each element in turn; the first error ends it.\<close>

fun each :: "('a \<Rightarrow> exn + 'b) \<Rightarrow> 'a list \<Rightarrow> exn + 'b list" where
  "each f [] = Inr []"
| "each f (x # xs) =
     (case f x of
        Inl e \<Rightarrow> Inl e
      | Inr y \<Rightarrow> (case each f xs of Inl e \<Rightarrow> Inl e | Inr ys \<Rightarrow> Inr (y # ys)))"

text \<open>
  The \<open>dtype\<close> pandas gives a column of a frame built from records: \<open>int64\<close> when every
  value is an integer (\<open>Some\<close> of the integers, which are taken to lie in the range of
  \<open>int64\<close>), \<open>object\<close> otherwise (\<open>None\<close>).
\<close>

fun int64 :: "pyval list \<Rightarrow> int list option" where
  "int64 [] = Some []"
| "int64 (PInt n # vs) = (case int64 vs of None \<Rightarrow> None | Some ns \<Rightarrow> Some (n # ns))"
| "int64 (PStr s # vs) = None"

text \<open>
  \<open>series + k\<close>. On an \<open>int64\<close> column it is the addition of \<open>int64\<close>, which wraps around and
  raises nothing; on an \<open>object\<close> column Python's \<open>+\<close> is applied to each value, and a string and
  an integer do not add.
\<close>

fun py_add :: "pyval \<Rightarrow> int \<Rightarrow> exn + int" where
  "py_add (PInt n) k = Inr (n + k)"
| "py_add (PStr s) k = Inl TypeError"

definition add_scalar :: "pyval list \<Rightarrow> int \<Rightarrow> exn + int list" where
  "add_scalar col k =
     (case int64 col of
        Some ns \<Rightarrow> Inr (map (\<lambda>n. wrap64 (n + k)) ns)
      | None \<Rightarrow> each (\<lambda>v. py_add v k) col)"

text \<open>
  \<open>a / b\<close> on two \<open>int64\<close> columns: both are converted to \<open>float64\<close> and divided as floats. A
  zero divisor gives an infinity, or \<open>NaN\<close> for \<open>0 / 0\<close>, and nothing is raised (the integer
  zero converts to the float zero, another integer to a float of its sign).
\<close>

definition ieee_div :: "int \<Rightarrow> int \<Rightarrow> pyfloat" where
  "ieee_div c d =
     (if d = 0 then (if 0 < c then PosInf else if c < 0 then NegInf else NaN)
      else float_div (float64 (of_int c)) (float64 (of_int d)))"

text \<open>
  On an \<open>object\<close> column it is Python's \<open>/\<close> on each pair of values: the quotient of two
  integers rounded to a float, an error when the divisor is zero or the quotient is too large
  for a float.
\<close>

fun py_truediv :: "pyval \<times> int \<Rightarrow> exn + pyfloat" where
  "py_truediv (PInt c, d) =
     (if d = 0 then Inl ZeroDivisionError
      else (case float64 (of_int c / of_int d) of
              Fin q \<Rightarrow> Inr (Fin q)
            | _ \<Rightarrow> Inl OverflowError))"
| "py_truediv (PStr s, d) = Inl TypeError"

definition truediv :: "pyval list \<Rightarrow> int list \<Rightarrow> exn + pyfloat list" where
  "truediv num den =
     (case int64 num of
        Some cs \<Rightarrow> Inr (map (\<lambda>(c, d). ieee_div c d) (zip cs den))
      | None \<Rightarrow> each py_truediv (zip num den))"

text \<open>
  \<open>pd.cut(x, bins, labels)\<close> with the default \<open>right=True\<close>. A bin edge is a float, here
  an integer or an infinity. \<open>searchsorted\<close> (side \<open>left\<close>) counts the edges below the
  value; value \<open>x\<close> with \<open>i\<close> edges below lies in \<open>(bins[i-1], bins[i]]\<close> and gets
  \<open>labels[i-1]\<close>; a value below every edge or above every edge is \<open>NaN\<close>.
\<close>

datatype edge = NegInfinity | Edge int | Infinity

fun below :: "edge \<Rightarrow> int \<Rightarrow> bool" where
  "below NegInfinity x = True"
| "below (Edge b) x = (b < x)"
| "below Infinity x = False"

definition searchsorted :: "edge list \<Rightarrow> int \<Rightarrow> nat" where
  "searchsorted bins x = length (takeWhile (\<lambda>b. below b x) bins)"

definition cut_value :: "edge list \<Rightarrow> string list \<Rightarrow> int \<Rightarrow> string option" where
  "cut_value bins labels x =
     (let i = searchsorted bins x
      in if i = 0 \<or> i = length bins then None else Some (labels ! (i - 1)))"

definition pd_cut :: "pyval list \<Rightarrow> edge list \<Rightarrow> string list \<Rightarrow> exn + string option list" where
  "pd_cut col bins labels =
     (if length labels + 1 \<noteq> length bins then Inl ValueError
      else case int64 col of
        None \<Rightarrow> Inl TypeError
      | Some xs \<Rightarrow> Inr (map (cut_value bins labels) xs))"

text \<open>
  The regular expression \<open>[^\w\s]\<close> on \<open>str\<close>: \<open>\s\<close> is a whitespace character, \<open>\w\<close> is
  an alphanumeric character or the underscore (for the code points below 256).
\<close>

definition is_space :: "char \<Rightarrow> bool" where
  "is_space c = (let n = (of_char c :: nat) in (9 \<le> n \<and> n \<le> 13) \<or> (28 \<le> n \<and> n \<le> 32) \<or> n = 133 \<or> n = 160)"

definition is_word :: "char \<Rightarrow> bool" where
  "is_word c =
     (let n = (of_char c :: nat)
      in (48 \<le> n \<and> n \<le> 57) \<or> (65 \<le> n \<and> n \<le> 90) \<or> n = 95 \<or> (97 \<le> n \<and> n \<le> 122)
         \<or> n = 170 \<or> n = 178 \<or> n = 179 \<or> n = 181 \<or> n = 185 \<or> n = 186
         \<or> (188 \<le> n \<and> n \<le> 190) \<or> (192 \<le> n \<and> n \<le> 214) \<or> (216 \<le> n \<and> n \<le> 246)
         \<or> 248 \<le> n)"

text \<open>\<open>.str.replace(r'[^\w\s]', '', regex=True)\<close> and \<open>.str.strip()\<close>, on one string.\<close>

definition replace_nonword :: "string \<Rightarrow> string" where
  "replace_nonword t = filter (\<lambda>c. is_word c \<or> is_space c) t"

definition strip :: "string \<Rightarrow> string" where
  "strip t = rev (dropWhile is_space (rev (dropWhile is_space t)))"

text \<open>\<open>.fillna('')\<close>, on one value.\<close>

definition fillna :: "string option \<Rightarrow> string option" where
  "fillna v = (case v of None \<Rightarrow> Some [] | Some t \<Rightarrow> Some t)"

subsection \<open>The steps of the transformation\<close>

definition score_bins :: "edge list" where
  "score_bins = [NegInfinity, Edge 0, Edge 10, Edge 100, Edge 1000, Infinity]"

definition score_labels :: "string list" where
  "score_labels = [''Negative'', ''Low'', ''Medium'', ''High'', ''Viral'']"

text \<open>Row \<open>i\<close> of the frame, from the records and the columns computed for them.\<close>

definition frame_row ::
  "raw_post list \<Rightarrow> int list \<Rightarrow> int list \<Rightarrow> string list \<Rightarrow> string option list \<Rightarrow>
   nat option list \<Rightarrow> nat option list \<Rightarrow> bool list \<Rightarrow> nat list \<Rightarrow> nat list \<Rightarrow>
   pyfloat list \<Rightarrow> string option list \<Rightarrow> nat \<Rightarrow> int enriched" where
  "frame_row posts_data scores comments titles selftexts title_lengths selftext_lengths
     has_selftexts hours days rates categories i =
     \<lparr>ident = ident (posts_data ! i),
      title = titles ! i,
      author = author (posts_data ! i),
      subreddit = subreddit (posts_data ! i),
      score = scores ! i,
      upvote_ratio = upvote_ratio (posts_data ! i),
      num_comments = comments ! i,
      created_utc = created_utc (posts_data ! i),
      selftext = selftexts ! i,
      url = url (posts_data ! i),
      is_video = is_video (posts_data ! i),
      is_original_content = is_original_content (posts_data ! i),
      over_18 = over_18 (posts_data ! i),
      stickied = stickied (posts_data ! i),
      locked = locked (posts_data ! i),
      title_length = title_lengths ! i,
      selftext_length = selftext_lengths ! i,
      has_selftext = has_selftexts ! i,
      hour_posted = hours ! i,
      day_of_week = days ! i,
      engagement_rate = rates ! i,
      score_category = categories ! i\<rparr>"

text \<open>
  The body of the \<open>try\<close> block after the emptiness test, without its two log lines: the
  columns in the order the script computes them, then the frame. The index \<open>i\<close> of
  \<open>frame_row\<close> ranges over the rows, and every column has one value per row. The frame
  holds the two numeric columns as \<open>int64\<close>; the addition and the division before have
  raised on any other column.
\<close>

definition transform_steps :: "raw_post list \<Rightarrow> exn + frame" where
  "transform_steps posts_data =
     (let title_lengths = str_len (map (\<lambda>p. Some (title p)) posts_data);
          selftext_lengths = str_len (map selftext posts_data);
          has_selftexts = gt_zero selftext_lengths;
          hours = map (\<lambda>p. hour (created_utc p)) posts_data;
          days = map (\<lambda>p. dayofweek (created_utc p)) posts_data
      in case add_scalar (map score posts_data) 1 of
           Inl e \<Rightarrow> Inl e
         | Inr score1 \<Rightarrow>
      (case truediv (map num_comments posts_data) score1 of
           Inl e \<Rightarrow> Inl e
         | Inr rates \<Rightarrow>
      (case pd_cut (map score posts_data) score_bins score_labels of
           Inl e \<Rightarrow> Inl e
         | Inr categories \<Rightarrow>
      (let titles = map (\<lambda>p. strip (replace_nonword (title p))) posts_data;
           selftexts = map (\<lambda>p. fillna (selftext p)) posts_data
       in case (int64 (map score posts_data), int64 (map num_comments posts_data)) of
            (Some scores, Some comments) \<Rightarrow>
              Inr (map (frame_row posts_data scores comments titles selftexts title_lengths
                          selftext_lengths has_selftexts hours days rates categories)
                       [0..<length posts_data])
          | _ \<Rightarrow> Inl TypeError))))"

text \<open>
  \<open>transform_data\<close>. The empty frame, \<open>pd.DataFrame()\<close>, is the empty list of rows; a
  frame built from no records is empty and is returned as it is.
\<close>

definition transform_data :: "raw_post list \<Rightarrow> frame io" where
  "transform_data posts_data =
     try_except
       (and_then (logger (Log INFO ''Transforming data...'')) (\<lambda>_.
          if posts_data = [] then done_with []
          else
            and_then (lift (transform_steps posts_data)) (\<lambda>df.
            and_then (logger (Log INFO (''Data transformation completed for ''
                                        @ str_nat (length df) @ '' posts''))) (\<lambda>_.
            done_with df))))
       (\<lambda>e. and_then (logger (LogExc ERROR ''Error transforming data: '' e)) (\<lambda>_.
            done_with []))"

section \<open>The Source Adapter: \<open>extract_posts\<close>, \<open>extract_comments\<close>\<close>

text \<open>\<open>str(x.author) if x.author else '[deleted]'\<close>.\<close>

definition author_name :: "string option \<Rightarrow> string" where
  "author_name a = (case a of None \<Rightarrow> ''[deleted]'' | Some n \<Rightarrow> n)"

definition post_data :: "env \<Rightarrow> submission \<Rightarrow> raw_post" where
  "post_data env post =
     \<lparr>ident = s_id post,
      title = s_title post,
      author = author_name (s_author post),
      subreddit = s_display_name post,
      score = PInt (s_score post),
      upvote_ratio = s_upvote_ratio post,
      num_comments = PInt (s_num_comments post),
      created_utc = fromtimestamp (tz_offset env) (s_created_utc post),
      selftext = Some (s_selftext post),
      url = s_url post,
      is_video = s_is_video post,
      is_original_content = s_is_original_content post,
      over_18 = s_over_18 post,
      stickied = s_stickied post,
      locked = s_locked post\<rparr>"

text \<open>The listing the sort type selects; an unknown sort type is \<open>hot\<close>.\<close>

definition feed_of :: "string \<Rightarrow> feed" where
  "feed_of sort_type =
     (if sort_type = ''hot'' then Hot
      else if sort_type = ''new'' then New
      else if sort_type = ''top'' then TopDay
      else Hot)"

text \<open>
  Iterating a listing with \<open>limit\<close>: a limit of zero or less ends the iteration before
  any request; otherwise the requests are made, and the first \<open>limit\<close> submissions are
  yielded unless a request fails.
\<close>

definition iterate_listing :: "env \<Rightarrow> feed \<Rightarrow> string \<Rightarrow> int \<Rightarrow> exn + submission list" where
  "iterate_listing env f name limit =
     (if limit \<le> 0 then Inr []
      else case listing env f name of Inl e \<Rightarrow> Inl e | Inr posts \<Rightarrow> Inr (take (nat limit) posts))"

definition extract_posts :: "env \<Rightarrow> string \<Rightarrow> int \<Rightarrow> string \<Rightarrow> raw_post list io" where
  "extract_posts env subreddit_name limit sort_type =
     and_then (note_call (ExtractPosts subreddit_name)) (\<lambda>_.
     try_except
       (and_then (logger (Log INFO (''Extracting '' @ str_int limit @ '' '' @ sort_type
                                    @ '' posts from r/'' @ subreddit_name))) (\<lambda>_.
        and_then (lift (iterate_listing env (feed_of sort_type) subreddit_name limit)) (\<lambda>posts.
        let posts_data = map (post_data env) posts in
        and_then (logger (Log INFO (''Successfully extracted ''
                                    @ str_nat (length posts_data) @ '' posts''))) (\<lambda>_.
        done_with posts_data))))
       (\<lambda>e. and_then (logger (LogExc ERROR ''Error extracting posts: '' e)) (\<lambda>_.
            done_with [])))"

text \<open>
  \<open>comments.replace_more(limit=0)\<close>: PRAW replaces at most \<open>limit\<close> \<open>MoreComments\<close>
  objects by what the API returns for them and removes the others from the forest;
  with \<open>limit=0\<close> it replaces none and removes them all, at every depth, without a
  request.
\<close>

fun replace_more_0 :: "node \<Rightarrow> node list" where
  "replace_more_0 (Comment c replies) = [Comment c (concat (map replace_more_0 replies))]"
| "replace_more_0 (MoreComments hidden) = []"

text \<open>
  \<open>comments.list()\<close>: the forest flattened breadth first. The argument is the queue of
  the traversal.
\<close>

function comments_list :: "node list \<Rightarrow> node list" where
  "comments_list [] = []"
| "comments_list (Comment c replies # queue) = Comment c replies # comments_list (queue @ replies)"
| "comments_list (MoreComments hidden # queue) = MoreComments hidden # comments_list queue"
  by pat_completeness auto
termination
  by (relation "measure (size_list size)") auto

text \<open>The slice \<open>xs[:k]\<close>: a negative \<open>k\<close> counts from the end.\<close>

definition slice_to :: "'a list \<Rightarrow> int \<Rightarrow> 'a list" where
  "slice_to xs k = (if 0 \<le> k then take (nat k) xs else take (length xs - nat (- k)) xs)"

text \<open>\<open>hasattr(comment, 'body')\<close>: a \<open>Comment\<close> has a body, a \<open>MoreComments\<close> has none.\<close>

fun has_body :: "node \<Rightarrow> bool" where
  "has_body (Comment c replies) = True"
| "has_body (MoreComments hidden) = False"

definition comment_record :: "env \<Rightarrow> string \<Rightarrow> praw_comment \<Rightarrow> comment" where
  "comment_record env post_id c =
     \<lparr>c_id = k_id c,
      c_post_id = post_id,
      c_author = author_name (k_author c),
      c_body = k_body c,
      c_score = k_score c,
      c_created_utc = fromtimestamp (tz_offset env) (k_created_utc c),
      c_parent_id = k_parent_id c,
      c_is_submitter = k_is_submitter c\<rparr>"

text \<open>The loop over the sliced list: a record for each entry that has a body.\<close>

fun comments_data :: "env \<Rightarrow> string \<Rightarrow> node list \<Rightarrow> comment list" where
  "comments_data env post_id [] = []"
| "comments_data env post_id (Comment c replies # rest) =
     comment_record env post_id c # comments_data env post_id rest"
| "comments_data env post_id (MoreComments hidden # rest) = comments_data env post_id rest"

definition extract_comments :: "env \<Rightarrow> string \<Rightarrow> int \<Rightarrow> comment list io" where
  "extract_comments env post_id limit =
     and_then (note_call (ExtractComments post_id)) (\<lambda>_.
     try_except
       (and_then (lift (comment_forest env post_id)) (\<lambda>forest.
        let forest' = concat (map replace_more_0 forest) in
        done_with (comments_data env post_id (slice_to (comments_list forest') limit))))
       (\<lambda>e. and_then (logger (LogExc ERROR (''Error extracting comments for post ''
                                             @ post_id @ '': '') e)) (\<lambda>_.
            done_with [])))"

section \<open>The Store Adapter\<close>

text \<open>\<open>sqlite3.connect\<close> and the first statement on the connection.\<close>

definition connect :: "env \<Rightarrow> unit io" where
  "connect env = (if db_ok env then done_with () else raise OperationalError)"

text \<open>
  \<open>setup_database\<close>: \<open>CREATE TABLE IF NOT EXISTS\<close> leaves the rows of a table that
  exists as they are; a table that does not exist yet has no rows. The handler logs and
  raises again.
\<close>

definition setup_database :: "env \<Rightarrow> unit io" where
  "setup_database env =
     and_then (note_call SetupDatabase) (\<lambda>_.
     try_except
       (and_then (connect env) (\<lambda>_.
        logger (Log INFO ''Database tables created successfully'')))
       (\<lambda>e. and_then (logger (LogExc ERROR ''Error setting up database: '' e)) (\<lambda>_.
            raise e)))"

text \<open>
  \<open>df.to_sql('posts', conn, if_exists='append', index=False, method='multi')\<close>: one
  \<open>INSERT\<close> of all rows. \<open>id\<close> is the primary key: when a new identifier is already in
  the table, or occurs twice among the new rows, the statement fails and inserts
  nothing. \<open>extracted_at\<close> takes its default, the current time.
\<close>

definition stored_row :: "datetime \<Rightarrow> int enriched \<Rightarrow> stored_post" where
  "stored_row t r = enriched.extend r \<lparr>extracted_at = t\<rparr>"

definition to_sql_posts :: "env \<Rightarrow> frame \<Rightarrow> unit io" where
  "to_sql_posts env df w =
     (let new_ids = map ident df; old_ids = map ident (tbl_posts w)
      in if distinct new_ids \<and> filter (\<lambda>i. i \<in> set old_ids) new_ids = []
         then (Inr (), w\<lparr>tbl_posts := tbl_posts w @ map (stored_row (now env)) df\<rparr>)
         else (Inl IntegrityError, w))"

definition load_posts :: "env \<Rightarrow> frame \<Rightarrow> unit io" where
  "load_posts env df =
     and_then (note_call (LoadPosts (length df))) (\<lambda>_.
     try_except
       (and_then (logger (Log INFO ''Loading posts data into database...'')) (\<lambda>_.
        and_then (connect env) (\<lambda>_.
        and_then (to_sql_posts env df) (\<lambda>_.
        logger (Log INFO (''Successfully loaded '' @ str_nat (length df)
                          @ '' posts to database''))))))
       (\<lambda>e. logger (LogExc ERROR ''Error loading data: '' e)))"

text \<open>
  \<open>df_comments.to_sql('comments', conn, if_exists='append', index=False)\<close>: the rows
  are inserted in one transaction, rolled back when a row fails. \<open>id\<close> is the primary
  key; the foreign key to \<open>posts\<close> is declared and not enforced.
\<close>

definition stored_comment_row :: "datetime \<Rightarrow> comment \<Rightarrow> stored_comment" where
  "stored_comment_row t c = comment.extend c \<lparr>c_extracted_at = t\<rparr>"

definition to_sql_comments :: "env \<Rightarrow> comment list \<Rightarrow> unit io" where
  "to_sql_comments env cs w =
     (let new_ids = map c_id cs; old_ids = map c_id (tbl_comments w)
      in if distinct new_ids \<and> filter (\<lambda>i. i \<in> set old_ids) new_ids = []
         then (Inr (), w\<lparr>tbl_comments := tbl_comments w @ map (stored_comment_row (now env)) cs\<rparr>)
         else (Inl IntegrityError, w))"

definition load_comments :: "env \<Rightarrow> comment list \<Rightarrow> unit io" where
  "load_comments env cs =
     and_then (note_call (LoadComments (length cs))) (\<lambda>_.
     try_except
       (if cs = [] then done_with ()
        else
          and_then (logger (Log INFO (''Loading '' @ str_nat (length cs)
                                      @ '' comments into database...''))) (\<lambda>_.
          and_then (connect env) (\<lambda>_.
          and_then (to_sql_comments env cs) (\<lambda>_.
          logger (Log INFO (''Successfully loaded '' @ str_nat (length cs) @ '' comments''))))))
       (\<lambda>e. logger (LogExc ERROR ''Error loading comments: '' e)))"

text \<open>
  The \<open>SELECT\<close> of the rollup. The \<open>WHERE\<close> clause keeps the posts of the subreddit
  whose creation date is the store's current date; they all fall into one group of
  \<open>GROUP BY subreddit, DATE(created_utc)\<close>, and no post gives no group and no row.
\<close>

definition select_daily_stats :: "stored_post list \<Rightarrow> string \<Rightarrow> int \<Rightarrow> stat list" where
  "select_daily_stats tbl subreddit_name today =
     (case filter (\<lambda>p. subreddit p = subreddit_name \<and> DATE (created_utc p) = today) tbl of
        [] \<Rightarrow> []
      | p # ps \<Rightarrow>
          [\<lparr>st_subreddit = subreddit_name,
            st_date = today,
            total_posts = length (p # ps),
            avg_score = of_int (sum_list (map score (p # ps))) / of_nat (length (p # ps)),
            avg_comments = of_int (sum_list (map num_comments (p # ps))) / of_nat (length (p # ps)),
            top_post_score = foldl max (score p) (map score ps)\<rparr>])"

text \<open>
  \<open>INSERT OR REPLACE\<close> of one row: the rows with the same primary key are deleted, then
  the row is inserted.
\<close>

definition stat_key :: "stat \<Rightarrow> string \<times> int" where
  "stat_key s = (st_subreddit s, st_date s)"

definition insert_or_replace :: "stat list \<Rightarrow> stat \<Rightarrow> stat list" where
  "insert_or_replace tbl r = filter (\<lambda>s. stat_key s \<noteq> stat_key r) tbl @ [r]"

definition execute_rollup :: "env \<Rightarrow> string \<Rightarrow> unit io" where
  "execute_rollup env subreddit_name w =
     (Inr (), w\<lparr>tbl_stats := foldl insert_or_replace (tbl_stats w)
                  (select_daily_stats (tbl_posts w) subreddit_name (DATE (now env)))\<rparr>)"

definition generate_subreddit_stats :: "env \<Rightarrow> string \<Rightarrow> unit io" where
  "generate_subreddit_stats env subreddit_name =
     and_then (note_call (GenerateStats subreddit_name)) (\<lambda>_.
     try_except
       (and_then (connect env) (\<lambda>_.
        and_then (execute_rollup env subreddit_name) (\<lambda>_.
        logger (Log INFO (''Generated statistics for r/'' @ subreddit_name)))))
       (\<lambda>e. logger (LogExc ERROR ''Error generating statistics: '' e)))"

section \<open>The Pipeline Orchestrator: \<open>run_pipeline\<close>, \<open>main\<close>\<close>

text \<open>
  \<open>df.nlargest(n, 'score')\<close>: the \<open>n\<close> rows of highest score, highest first, rows of
  equal score in the order of the frame.
\<close>

definition nlargest :: "nat \<Rightarrow> frame \<Rightarrow> frame" where
  "nlargest n df = take n (sort_key (\<lambda>r. - score r) df)"

text \<open>\<open>transformed_df.nlargest(10, 'score')['id'].tolist()\<close>.\<close>

definition top_posts :: "env \<Rightarrow> frame \<Rightarrow> string list io" where
  "top_posts env df =
     (case nlargest_fault env df of
        Some e \<Rightarrow> raise e
      | None \<Rightarrow> done_with (map ident (nlargest 10 df)))"

fun comments_loop :: "env \<Rightarrow> string list \<Rightarrow> unit io" where
  "comments_loop env [] w = done_with () w"
| "comments_loop env (post_id # rest) w =
     and_then (extract_comments env post_id 20) (\<lambda>comments.
     and_then (load_comments env comments) (\<lambda>_.
     comments_loop env rest)) w"

definition run_pipeline :: "env \<Rightarrow> string \<Rightarrow> int \<Rightarrow> bool \<Rightarrow> unit io" where
  "run_pipeline env subreddit_name limit extract_comments_flag =
     try_except
       (and_then (logger (Log INFO (''Starting ETL pipeline for r/'' @ subreddit_name))) (\<lambda>_.
        and_then (extract_posts env subreddit_name limit ''hot'') (\<lambda>posts_data.
        if posts_data = [] then logger (Log WARNING ''No posts extracted, stopping pipeline'')
        else
          and_then (transform_data posts_data) (\<lambda>transformed_df.
          if transformed_df = []
          then logger (Log WARNING ''No data after transformation, stopping pipeline'')
          else
            and_then (load_posts env transformed_df) (\<lambda>_.
            and_then
              (if extract_comments_flag
               then
                 and_then (logger (Log INFO ''Extracting comments for top 10 posts...'')) (\<lambda>_.
                 and_then (top_posts env transformed_df) (\<lambda>ids.
                 comments_loop env ids))
               else done_with ()) (\<lambda>_.
            and_then (generate_subreddit_stats env subreddit_name) (\<lambda>_.
            logger (Log INFO ''ETL pipeline completed successfully''))))))))
       (\<lambda>e. and_then (logger (LogExc ERROR ''Error in ETL pipeline: '' e)) (\<lambda>_.
            raise e))"

text \<open>
  \<open>RedditETL.__init__\<close>: building the PRAW client makes no request and is taken to
  succeed; then \<open>setup_database\<close>, with no handler around it.
\<close>

definition init :: "env \<Rightarrow> unit io" where
  "init env = setup_database env"

definition rule_line :: string where
  "rule_line = replicate 50 CHR ''=''"

text \<open>The loop of \<open>main\<close> over the subreddits.\<close>

fun main_loop :: "env \<Rightarrow> string list \<Rightarrow> unit io" where
  "main_loop env [] w = done_with () w"
| "main_loop env (sub # rest) w =
     and_then
       (try_except
          (and_then (logger (Log INFO (CHR 0x0A # rule_line))) (\<lambda>_.
           and_then (logger (Log INFO (''Processing r/'' @ sub))) (\<lambda>_.
           and_then (logger (Log INFO rule_line)) (\<lambda>_.
           run_pipeline env sub 50 True))))
          (\<lambda>e. logger (LogExc ERROR (''Failed to process r/'' @ sub @ '': '') e)))
       (\<lambda>_. main_loop env rest) w"

definition subreddits :: "string list" where
  "subreddits = [''python'', ''datascience'', ''MachineLearning'']"

definition main :: "env \<Rightarrow> unit io" where
  "main env =
     and_then (init env) (\<lambda>_.
     and_then (main_loop env subreddits) (\<lambda>_.
     and_then (logger (Log INFO (CHR 0x0A # ''ETL pipeline execution completed!''))) (\<lambda>_.
     logger (Log INFO ''Data stored in: reddit_data.db''))))"

section \<open>Sample data\<close>

text \<open>Concrete records, states and environments on which the properties below are run.\<close>

definition sample_post :: "string \<Rightarrow> pyval \<Rightarrow> pyval \<Rightarrow> string option \<Rightarrow> raw_post" where
  "sample_post i s c body =
     \<lparr>ident = i, title = ''Hello, World!! #2024'', author = ''u1'', subreddit = ''x'',
      score = s, upvote_ratio = Fin (3 / 4), num_comments = c,
      created_utc = \<lparr>dt_day = 20000, dt_sec = 3700\<rparr>, selftext = body,
      url = ''https://example.org/'', is_video = False, is_original_content = False,
      over_18 = False, stickied = False, locked = False\<rparr>"

definition empty_world :: world where
  "empty_world = \<lparr>tbl_posts = [], tbl_comments = [], tbl_stats = [], logbook = [], calls = []\<rparr>"

text \<open>The frame \<open>transform_data\<close> returns for a batch (it always returns one).\<close>

definition returned_frame :: "raw_post list \<Rightarrow> frame" where
  "returned_frame posts = projr (fst (transform_data posts empty_world))"

definition boundary_batch :: "raw_post list" where
  "boundary_batch =
     map (\<lambda>s. sample_post ''p'' (PInt s) (PInt 3) (Some ''text''))
       [0, 10, 11, 100, 101, 1000, 1001]"

text \<open>
  Three batches: downvoted posts (two of them with score \<open>-1\<close>), a batch whose second
  record holds a string under \<open>score\<close>, and a batch whose second record has no body.
\<close>

definition downvoted_batch :: "raw_post list" where
  "downvoted_batch =
     [sample_post ''p1'' (PInt (- 5)) (PInt 3) (Some ''text''),
      sample_post ''p2'' (PInt (- 1)) (PInt 3) (Some ''text''),
      sample_post ''p3'' (PInt (- 1)) (PInt 0) (Some ''text'')]"

definition malformed_batch :: "raw_post list" where
  "malformed_batch =
     [sample_post ''p1'' (PInt 7) (PInt 3) (Some ''text''),
      sample_post ''p2'' (PStr ''n/a'') (PInt 3) (Some ''text'')]"

definition bodiless_batch :: "raw_post list" where
  "bodiless_batch =
     [sample_post ''p1'' (PInt 7) (PInt 3) (Some ''hello''),
      sample_post ''p2'' (PInt 7) (PInt 3) None]"

text \<open>
  A stored post; an environment whose listings and forests are empty; a \<open>posts\<close> table
  with three posts of subreddit \<open>x\<close> on the current day (scores 5, 15 and 1000), one of
  the day before and one of another subreddit; a \<open>subreddit_stats\<close> table with an old row
  for \<open>x\<close> on the current day; the state after a rollup and the load of a fourth post.
\<close>

definition stored_sample :: "string \<Rightarrow> string \<Rightarrow> int \<Rightarrow> int \<Rightarrow> int \<Rightarrow> stored_post" where
  "stored_sample i sub s c day =
     \<lparr>ident = i, title = ''Hello World 2024'', author = ''u1'', subreddit = sub,
      score = s, upvote_ratio = Fin (3 / 4), num_comments = c,
      created_utc = \<lparr>dt_day = day, dt_sec = 3700\<rparr>, selftext = Some ''text'',
      url = ''https://example.org/'', is_video = False, is_original_content = False,
      over_18 = False, stickied = False, locked = False,
      title_length = Some 20, selftext_length = Some 4, has_selftext = True,
      hour_posted = hour \<lparr>dt_day = day, dt_sec = 3700\<rparr>,
      day_of_week = dayofweek \<lparr>dt_day = day, dt_sec = 3700\<rparr>,
      engagement_rate = ieee_div c (wrap64 (s + 1)),
      score_category = cut_value score_bins score_labels s,
      extracted_at = \<lparr>dt_day = day, dt_sec = 4000\<rparr>\<rparr>"

definition quiet_env :: env where
  "quiet_env =
     \<lparr>db_ok = True, now = \<lparr>dt_day = 20000, dt_sec = 43200\<rparr>, tz_offset = 0,
      listing = (\<lambda>f name. Inr []), comment_forest = (\<lambda>post_id. Inr []),
      nlargest_fault = (\<lambda>df. None)\<rparr>"





text \<open>A submission, a comment, and an environment in which the selection of the top
  posts raises for the subreddit \<open>bad\<close> and not for the subreddit \<open>good\<close>.\<close>

definition sample_submission :: "string \<Rightarrow> string \<Rightarrow> int \<Rightarrow> submission" where
  "sample_submission i sub s =
     \<lparr>s_id = i, s_title = ''Hello, World!! #2024'', s_author = None, s_display_name = sub,
      s_score = s, s_upvote_ratio = Fin (3 / 4), s_num_comments = 3,
      s_created_utc = 1728000000, s_selftext = [], s_url = ''https://example.org/'',
      s_is_video = False, s_is_original_content = False, s_over_18 = False,
      s_stickied = False, s_locked = False\<rparr>"

definition sample_comment :: "string \<Rightarrow> praw_comment" where
  "sample_comment i =
     \<lparr>k_id = i, k_author = Some ''u2'', k_body = ''a reply'', k_score = 1,
      k_created_utc = 1728000100, k_parent_id = ''t3_p1'', k_is_submitter = False\<rparr>"

definition faulty_env :: env where
  "faulty_env =
     \<lparr>db_ok = True, now = \<lparr>dt_day = 20000, dt_sec = 43200\<rparr>, tz_offset = 0,
      listing = (\<lambda>f name. if name = ''bad'' then Inr [sample_submission ''q1'' ''bad'' 4]
                          else if name = ''good'' then Inr [sample_submission ''p1'' ''good'' 7]
                          else Inl RequestException),
      comment_forest = (\<lambda>post_id. Inr [Comment (sample_comment ''c1'') []]),
      nlargest_fault = (\<lambda>df. if ''q1'' \<in> set (map ident df) then Some MemoryError else None)\<rparr>"

text \<open>
  A store that already holds post \<open>p1\<close> of subreddit \<open>good\<close>, and an environment whose
  database cannot be opened.
\<close>

definition dup_world :: world where
  "dup_world = empty_world\<lparr>tbl_posts := [stored_sample ''p1'' ''good'' 7 3 20000]\<rparr>"

definition broken_env :: env where
  "broken_env = quiet_env\<lparr>db_ok := False\<rparr>"

text \<open>
  An environment where the forest of post \<open>p1\<close> has two comments in view and two more in
  collapsed parts, and where the request for any other forest fails.
\<close>

definition thread_env :: env where
  "thread_env =
     quiet_env\<lparr>comment_forest :=
       (\<lambda>post_id. if post_id = ''p1''
                   then Inr [Comment (sample_comment ''c1'')
                               [Comment (sample_comment ''c2'') [],
                                MoreComments [Comment (sample_comment ''c4'') []]],
                             MoreComments [Comment (sample_comment ''c3'') []]]
                   else Inl RequestException)\<rparr>"

section \<open>Observations\<close>

text \<open>
  What \<open>extract_posts\<close> (with the default sort type) and \<open>extract_comments\<close> return: both
  always return a list, and neither reads the state. \<open>requested\<close> picks from a sequence
  of calls the subreddits whose posts were asked for; \<open>comment_calls\<close> is the sequence of
  calls of the loop over the top posts; \<open>keeps_log\<close> says that a statement only appends to
  the log; \<open>pipeline_calls\<close> is the sequence of calls of one run of the pipeline.
\<close>

definition returned_posts :: "env \<Rightarrow> string \<Rightarrow> int \<Rightarrow> raw_post list" where
  "returned_posts env subreddit_name limit =
     projr (fst (extract_posts env subreddit_name limit ''hot'' empty_world))"

definition returned_comments :: "env \<Rightarrow> string \<Rightarrow> int \<Rightarrow> comment list" where
  "returned_comments env post_id limit = projr (fst (extract_comments env post_id limit empty_world))"

fun requested :: "call list \<Rightarrow> string list" where
  "requested [] = []"
| "requested (ExtractPosts n # cs) = n # requested cs"
| "requested (c # cs) = requested cs"

definition keeps_log :: "'a io \<Rightarrow> bool" where
  "keeps_log m = (\<forall>w. \<exists>lg. logbook (snd (m w)) = logbook w @ lg)"

definition comment_calls :: "env \<Rightarrow> string list \<Rightarrow> call list" where
  "comment_calls env ids =
     concat (map (\<lambda>i. [ExtractComments i, LoadComments (length (returned_comments env i 20))]) ids)"

definition pipeline_calls :: "env \<Rightarrow> string \<Rightarrow> int \<Rightarrow> bool \<Rightarrow> call list" where
  "pipeline_calls env subreddit_name limit flag =
     calls (snd (run_pipeline env subreddit_name limit flag empty_world))"

text \<open>
  The forest after \<open>replace_more(limit=0)\<close>; the comments among a list of nodes; and the
  comments of a forest that are outside every collapsed part, breadth first (the argument
  is the queue of the traversal).
\<close>

definition prune :: "node list \<Rightarrow> node list" where
  "prune forest = concat (map replace_more_0 forest)"

fun bodies :: "node list \<Rightarrow> praw_comment list" where
  "bodies [] = []"
| "bodies (Comment c replies # rest) = c # bodies rest"
| "bodies (MoreComments hidden # rest) = bodies rest"

function visible :: "node list \<Rightarrow> praw_comment list" where
  "visible [] = []"
| "visible (Comment c replies # queue) = c # visible (queue @ replies)"
| "visible (MoreComments hidden # queue) = visible queue"
  by pat_completeness auto
termination
  by (relation "measure (size_list size)") auto

text \<open>
  The comment listing as the specification words it, for comparison: every collapsed
  subtree is expanded in full (a \<open>MoreComments\<close> object is replaced by the nodes it stands
  for, expanded in turn), then the forest is flattened, truncated to \<open>limit\<close> entries and
  the entries that are not comments are skipped; a failure gives the empty sequence.
\<close>

fun expand_all :: "node \<Rightarrow> node list" where
  "expand_all (Comment c replies) = [Comment c (concat (map expand_all replies))]"
| "expand_all (MoreComments hidden) = concat (map expand_all hidden)"

definition listComments_spec :: "env \<Rightarrow> string \<Rightarrow> int \<Rightarrow> comment list" where
  "listComments_spec env post_id limit =
     (case comment_forest env post_id of
        Inl e \<Rightarrow> []
      | Inr forest \<Rightarrow>
          comments_data env post_id
            (slice_to (comments_list (concat (map expand_all forest))) limit))"

section \<open>Properties of the Feature Transformer\<close>

subsection \<open>The columns and the rows of the frame\<close>

lemma int64_ints: "int64 (map PInt ns) = Some ns"
  by (induction ns) auto

lemma int64_SomeD: "int64 vs = Some ns \<Longrightarrow> vs = map PInt ns"
  by (induction vs arbitrary: ns rule: int64.induct) (auto split: option.splits)

lemma int64_Some: "int64 vs = Some ns \<longleftrightarrow> vs = map PInt ns"
  using int64_ints int64_SomeD by blast

lemma each_add_fails: "int64 vs = None \<Longrightarrow> \<exists>e. each (\<lambda>v. py_add v k) vs = Inl e"
  by (induction vs rule: int64.induct) (auto split: option.splits sum.splits)

lemma add_scalar_Inr:
  assumes "add_scalar vs k = Inr r"
  shows "\<exists>ns. vs = map PInt ns \<and> r = map (\<lambda>n. wrap64 (n + k)) ns"
proof (cases "int64 vs")
  case None
  with each_add_fails[OF None, of k] assms show ?thesis
    by (auto simp: add_scalar_def)
next
  case (Some ns)
  with assms show ?thesis by (auto simp: add_scalar_def int64_Some)
qed

lemma add_scalar_ints: "add_scalar (map PInt ns) k = Inr (map (\<lambda>n. wrap64 (n + k)) ns)"
  by (simp add: add_scalar_def int64_ints)

lemma each_truediv_fails:
  "length vs = length ds \<Longrightarrow> int64 vs = None \<Longrightarrow> \<exists>e. each py_truediv (zip vs ds) = Inl e"
proof (induction vs arbitrary: ds)
  case Nil
  then show ?case by simp
next
  case (Cons v vs)
  then obtain d ds' where ds: "ds = d # ds'" by (cases ds) auto
  show ?case
  proof (cases v)
    case (PInt c)
    with Cons.prems ds have "length vs = length ds'" "int64 vs = None"
      by (auto split: option.splits)
    then obtain e where "each py_truediv (zip vs ds') = Inl e"
      using Cons.IH by blast
    with PInt ds show ?thesis by (auto split: pyfloat.splits)
  next
    case (PStr s)
    with ds show ?thesis by simp
  qed
qed

lemma truediv_Inr:
  assumes "truediv vs ds = Inr r" "length vs = length ds"
  shows "\<exists>cs. vs = map PInt cs \<and> r = map (\<lambda>(c, d). ieee_div c d) (zip cs ds)"
proof (cases "int64 vs")
  case None
  with each_truediv_fails[OF assms(2) None] assms(1) show ?thesis
    by (auto simp: truediv_def)
next
  case (Some cs)
  with assms(1) show ?thesis by (auto simp: truediv_def int64_Some)
qed

lemma cut_score: "cut_value score_bins score_labels s =
  Some (if s \<le> 0 then ''Negative'' else if s \<le> 10 then ''Low'' else if s \<le> 100 then ''Medium''
        else if s \<le> 1000 then ''High'' else ''Viral'')"
  by (simp add: cut_value_def searchsorted_def score_bins_def score_labels_def)


lemma transform_steps_Inr:
  assumes "transform_steps posts = Inr df"
  shows "\<exists>scores comments.
           map score posts = map PInt scores \<and> map num_comments posts = map PInt comments \<and>
           df = map (frame_row posts scores comments
                       (map (\<lambda>p. strip (replace_nonword (title p))) posts)
                       (map (\<lambda>p. fillna (selftext p)) posts)
                       (str_len (map (\<lambda>p. Some (title p)) posts))
                       (str_len (map selftext posts))
                       (gt_zero (str_len (map selftext posts)))
                       (map (\<lambda>p. hour (created_utc p)) posts)
                       (map (\<lambda>p. dayofweek (created_utc p)) posts)
                       (map (\<lambda>(c, d). ieee_div c d) (zip comments (map (\<lambda>n. wrap64 (n + 1)) scores)))
                       (map (cut_value score_bins score_labels) scores))
                  [0..<length posts]"
proof -
  from assms obtain score1 where a: "add_scalar (map score posts) 1 = Inr score1"
    by (auto simp: transform_steps_def Let_def split: sum.splits)
  then obtain scores where s: "map score posts = map PInt scores" "score1 = map (\<lambda>n. wrap64 (n + 1)) scores"
    using add_scalar_Inr by blast
  from assms a obtain rates where t: "truediv (map num_comments posts) score1 = Inr rates"
    by (auto simp: transform_steps_def Let_def split: sum.splits)
  have len: "length (map num_comments posts) = length score1"
    using s by (metis length_map)
  from truediv_Inr[OF t len] obtain comments where
    c: "map num_comments posts = map PInt comments" "rates = map (\<lambda>(c, d). ieee_div c d) (zip comments score1)"
    by blast
  have i1: "int64 (map score posts) = Some scores" and i2: "int64 (map num_comments posts) = Some comments"
    using s c by (simp_all add: int64_ints)
  have cut: "pd_cut (map score posts) score_bins score_labels = Inr (map (cut_value score_bins score_labels) scores)"
    by (simp add: pd_cut_def i1 score_bins_def score_labels_def)
  from assms have "df = map (frame_row posts scores comments
                       (map (\<lambda>p. strip (replace_nonword (title p))) posts)
                       (map (\<lambda>p. fillna (selftext p)) posts)
                       (str_len (map (\<lambda>p. Some (title p)) posts))
                       (str_len (map selftext posts))
                       (gt_zero (str_len (map selftext posts)))
                       (map (\<lambda>p. hour (created_utc p)) posts)
                       (map (\<lambda>p. dayofweek (created_utc p)) posts)
                       rates
                       (map (cut_value score_bins score_labels) scores))
                  [0..<length posts]"
    by (simp add: transform_steps_def Let_def a t cut i1 i2)
  with s c show ?thesis by blast
qed

lemma transform_steps_length: "transform_steps posts = Inr df \<Longrightarrow> length df = length posts"
  using transform_steps_Inr by fastforce

lemma map_eq_nth: "map f xs = map g ys \<Longrightarrow> i < length xs \<Longrightarrow> f (xs ! i) = g (ys ! i)"
  by (metis length_map nth_map)

lemma transform_steps_row:
  assumes "transform_steps posts = Inr df" "i < length posts"
  shows "\<exists>s c. score (posts ! i) = PInt s \<and> num_comments (posts ! i) = PInt c \<and>
           score (df ! i) = s \<and> num_comments (df ! i) = c \<and>
           ident (df ! i) = ident (posts ! i) \<and>
           title (df ! i) = strip (replace_nonword (title (posts ! i))) \<and>
           selftext (df ! i) = fillna (selftext (posts ! i)) \<and>
           title_length (df ! i) = Some (length (title (posts ! i))) \<and>
           selftext_length (df ! i) = map_option length (selftext (posts ! i)) \<and>
           has_selftext (df ! i) = (case selftext (posts ! i) of None \<Rightarrow> False | Some t \<Rightarrow> t \<noteq> []) \<and>
           engagement_rate (df ! i) = ieee_div c (wrap64 (s + 1)) \<and>
           score_category (df ! i) = cut_value score_bins score_labels s"
proof -
  from transform_steps_Inr[OF assms(1)] obtain scores comments where
    s: "map score posts = map PInt scores" and c: "map num_comments posts = map PInt comments"
    and df: "df = map (frame_row posts scores comments
                       (map (\<lambda>p. strip (replace_nonword (title p))) posts)
                       (map (\<lambda>p. fillna (selftext p)) posts)
                       (str_len (map (\<lambda>p. Some (title p)) posts))
                       (str_len (map selftext posts))
                       (gt_zero (str_len (map selftext posts)))
                       (map (\<lambda>p. hour (created_utc p)) posts)
                       (map (\<lambda>p. dayofweek (created_utc p)) posts)
                       (map (\<lambda>(c, d). ieee_div c d) (zip comments (map (\<lambda>n. wrap64 (n + 1)) scores)))
                       (map (cut_value score_bins score_labels) scores))
                  [0..<length posts]"
    by blast
  have ls: "length scores = length posts" and lc: "length comments = length posts"
    using s c by (metis length_map)+
  have si: "score (posts ! i) = PInt (scores ! i)" and ci: "num_comments (posts ! i) = PInt (comments ! i)"
    using map_eq_nth[OF s assms(2)] map_eq_nth[OF c assms(2)] by simp_all
  show ?thesis
    using assms(2) ls lc si ci
    by (simp add: df frame_row_def str_len_def gt_zero_def split: option.splits)
qed


lemma transform_steps_ints:
  assumes "\<forall>p\<in>set posts. (\<exists>s. score p = PInt s) \<and> (\<exists>c. num_comments p = PInt c)"
  shows "\<exists>df. transform_steps posts = Inr df"
proof -
  have "\<exists>ss. map score posts = map PInt ss" using assms
  proof (induction posts)
    case Nil then show ?case by simp
  next
    case (Cons p ps)
    then obtain ss s where "map score ps = map PInt ss" "score p = PInt s" by auto
    then have "map score (p # ps) = map PInt (s # ss)" by simp
    then show ?case by blast
  qed
  then obtain ss where s: "map score posts = map PInt ss" by blast
  have "\<exists>cs. map num_comments posts = map PInt cs" using assms
  proof (induction posts)
    case Nil then show ?case by simp
  next
    case (Cons p ps)
    then obtain cs c where "map num_comments ps = map PInt cs" "num_comments p = PInt c" by auto
    then have "map num_comments (p # ps) = map PInt (c # cs)" by simp
    then show ?case by blast
  qed
  then obtain cs where c: "map num_comments posts = map PInt cs" by blast
  show ?thesis
    by (simp add: transform_steps_def Let_def s c add_scalar_ints truediv_def int64_ints pd_cut_def
        score_bins_def score_labels_def)
qed

lemma transform_data_result:
  "fst (transform_data posts w) =
     Inr (if posts = [] then [] else case transform_steps posts of Inl e \<Rightarrow> [] | Inr df \<Rightarrow> df)"
  by (simp add: transform_data_def try_except_def and_then_def logger_def done_with_def lift_def
      split: sum.splits prod.splits)

lemma transform_data_world:
  "tbl_posts (snd (transform_data posts w)) = tbl_posts w \<and>
   tbl_comments (snd (transform_data posts w)) = tbl_comments w \<and>
   tbl_stats (snd (transform_data posts w)) = tbl_stats w \<and>
   calls (snd (transform_data posts w)) = calls w"
  by (simp add: transform_data_def try_except_def and_then_def logger_def done_with_def lift_def
      split: sum.splits prod.splits)

lemma transform_data_nonempty:
  assumes "fst (transform_data posts w) = Inr df" "i < length df"
  shows "transform_steps posts = Inr df"
  using assms by (auto simp: transform_data_result split: if_splits sum.splits)

lemma returned_frame: "fst (transform_data posts empty_world) = Inr (returned_frame posts)"
  by (simp add: returned_frame_def transform_data_result)

lemma returned_frame_length:
  assumes "\<forall>p\<in>set posts. (\<exists>s. score p = PInt s) \<and> (\<exists>c. num_comments p = PInt c)"
  shows "length (returned_frame posts) = length posts"
proof -
  obtain df where df: "transform_steps posts = Inr df"
    using transform_steps_ints[OF assms] by blast
  then show ?thesis
    by (cases "posts = []") (simp_all add: returned_frame_def transform_data_result transform_steps_length)
qed

lemma transform_data_row:
  assumes "fst (transform_data posts w) = Inr df" "i < length df"
  shows "i < length posts \<and> transform_steps posts = Inr df"
proof -
  have st: "transform_steps posts = Inr df"
    using assms by (rule transform_data_nonempty)
  then have "length df = length posts" by (rule transform_steps_length)
  with st assms(2) show ?thesis by simp
qed

lemma engagement_rate_row:
  assumes "fst (transform_data posts w) = Inr df" and "i < length df"
    and "score (posts ! i) = PInt s" and "num_comments (posts ! i) = PInt c"
  shows "engagement_rate (df ! i) = ieee_div c (wrap64 (s + 1))"
proof -
  from transform_data_row[OF assms(1,2)] have "i < length posts" "transform_steps posts = Inr df"
    by simp_all
  from transform_steps_row[OF this(2,1)] assms(3,4) show ?thesis by auto
qed

lemma text_fields_row:
  assumes "fst (transform_data posts w) = Inr df" "i < length df"
  shows "title_length (df ! i) = Some (length (title (posts ! i)))"
    and "selftext_length (df ! i) = map_option length (selftext (posts ! i))"
    and "has_selftext (df ! i) = (case selftext (posts ! i) of None \<Rightarrow> False | Some t \<Rightarrow> t \<noteq> [])"
    and "selftext (df ! i) = fillna (selftext (posts ! i))"
proof -
  from transform_data_row[OF assms] have "transform_steps posts = Inr df" "i < length posts"
    by simp_all
  from transform_steps_row[OF this] obtain s c where
    "title_length (df ! i) = Some (length (title (posts ! i))) \<and>
     selftext_length (df ! i) = map_option length (selftext (posts ! i)) \<and>
     has_selftext (df ! i) = (case selftext (posts ! i) of None \<Rightarrow> False | Some t \<Rightarrow> t \<noteq> []) \<and>
     selftext (df ! i) = fillna (selftext (posts ! i))"
    by blast
  then show "title_length (df ! i) = Some (length (title (posts ! i)))"
    and "selftext_length (df ! i) = map_option length (selftext (posts ! i))"
    and "has_selftext (df ! i) = (case selftext (posts ! i) of None \<Rightarrow> False | Some t \<Rightarrow> t \<noteq> [])"
    and "selftext (df ! i) = fillna (selftext (posts ! i))"
    by simp_all
qed

subsection \<open>Score categories\<close>

text \<open>
  C3. For every integer score the Feature Transformer assigns \<open>score_category\<close> by bins
  closed on the right: a score of at most 0 is \<open>Negative\<close>, above 0 and at most 10 is
  \<open>Low\<close>, above 10 and at most 100 is \<open>Medium\<close>, above 100 and at most 1000 is \<open>High\<close>,
  above 1000 is \<open>Viral\<close>. Row \<open>i\<close> of the returned frame belongs to record \<open>i\<close> of the
  batch.
\<close>

theorem score_category_bins:
  assumes "fst (transform_data posts w) = Inr df" and "i < length df"
    and "score (posts ! i) = PInt s"
  shows "score_category (df ! i) =
           Some (if s \<le> 0 then ''Negative'' else if s \<le> 10 then ''Low''
                 else if s \<le> 100 then ''Medium'' else if s \<le> 1000 then ''High'' else ''Viral'')"
proof -
  have st: "transform_steps posts = Inr df"
    using assms(1,2) by (rule transform_data_nonempty)
  then have "i < length posts" using assms(2) by (simp add: transform_steps_length)
  from transform_steps_row[OF st this] assms(3) show ?thesis
    by (auto simp: cut_score)
qed

text \<open>The boundaries 0, 10, 11, 100, 101, 1000 and 1001, in one batch.\<close>

lemma boundary_batch_ints: "\<forall>p\<in>set boundary_batch. (\<exists>s. score p = PInt s) \<and> (\<exists>c. num_comments p = PInt c)"
    by (simp add: boundary_batch_def sample_post_def)
lemma boundary_batch_length: "length boundary_batch = 7" by (simp add: boundary_batch_def)

lemma boundary_scores:
  "score (boundary_batch ! 0) = PInt 0"
  "score (boundary_batch ! 1) = PInt 10"
  "score (boundary_batch ! 2) = PInt 11"
  "score (boundary_batch ! 3) = PInt 100"
  "score (boundary_batch ! 4) = PInt 101"
  "score (boundary_batch ! 5) = PInt 1000"
  "score (boundary_batch ! 6) = PInt 1001"
  by (simp_all add: boundary_batch_def sample_post_def)

theorem score_category_bins_witness:
  "score_category (returned_frame boundary_batch ! 0) = Some ''Negative'' \<and>
   score_category (returned_frame boundary_batch ! 1) = Some ''Low'' \<and>
   score_category (returned_frame boundary_batch ! 2) = Some ''Medium'' \<and>
   score_category (returned_frame boundary_batch ! 3) = Some ''Medium'' \<and>
   score_category (returned_frame boundary_batch ! 4) = Some ''High'' \<and>
   score_category (returned_frame boundary_batch ! 5) = Some ''High'' \<and>
   score_category (returned_frame boundary_batch ! 6) = Some ''Viral''"
proof -
  have len: "length (returned_frame boundary_batch) = 7"
    using returned_frame_length[OF boundary_batch_ints] boundary_batch_length by simp
  note t = score_category_bins[OF returned_frame, of _ boundary_batch]
  have "score_category (returned_frame boundary_batch ! 0) = Some ''Negative''"
    using t[of 0 0] len boundary_scores(1) by simp
  moreover have "score_category (returned_frame boundary_batch ! 1) = Some ''Low''"
    using t[of 1 10] len boundary_scores(2) by simp
  moreover have "score_category (returned_frame boundary_batch ! 2) = Some ''Medium''"
    using t[of 2 11] len boundary_scores(3) by simp
  moreover have "score_category (returned_frame boundary_batch ! 3) = Some ''Medium''"
    using t[of 3 100] len boundary_scores(4) by simp
  moreover have "score_category (returned_frame boundary_batch ! 4) = Some ''High''"
    using t[of 4 101] len boundary_scores(5) by simp
  moreover have "score_category (returned_frame boundary_batch ! 5) = Some ''High''"
    using t[of 5 1000] len boundary_scores(6) by simp
  moreover have "score_category (returned_frame boundary_batch ! 6) = Some ''Viral''"
    using t[of 6 1001] len boundary_scores(7) by simp
  ultimately show ?thesis by blast
qed

subsection \<open>Engagement rate\<close>

lemma downvoted_batch_ints:
  "\<forall>p\<in>set downvoted_batch. (\<exists>s. score p = PInt s) \<and> (\<exists>c. num_comments p = PInt c)"
  by (simp add: downvoted_batch_def sample_post_def)

lemma downvoted_batch_length: "length (returned_frame downvoted_batch) = 3"
  using returned_frame_length[OF downvoted_batch_ints] by (simp add: downvoted_batch_def)

lemma downvoted_batch_rows:
  "score (downvoted_batch ! 0) = PInt (- 5)" "num_comments (downvoted_batch ! 0) = PInt 3"
  "score (downvoted_batch ! 1) = PInt (- 1)" "num_comments (downvoted_batch ! 1) = PInt 3"
  "score (downvoted_batch ! 2) = PInt (- 1)" "num_comments (downvoted_batch ! 2) = PInt 0"
  by (simp_all add: downvoted_batch_def sample_post_def)

text \<open>
  Where the divisor is not zero the rate is the quotient of two floats, rounded: score \<open>-5\<close>
  and three comments give \<open>-0.75\<close> (row 0 of the batch); a negative score is not clamped.
\<close>

lemma round_half_even_int: "round_half_even (of_int k) = k"
  by (simp add: round_half_even_def)

lemma floor_log2_examples: "floor_log2 (3 / 4) = - 1" "floor_log2 3 = 1" "floor_log2 4 = 2"
  by code_simp+

lemma pow2_examples:
  "pow2 (- 53) = 1 / 2 ^ 53" "pow2 (- 51) = 1 / 2 ^ 51" "pow2 (- 50) = 1 / 2 ^ 50"
  "pow2 1024 = 2 ^ 1024"
  by (simp_all add: pow2_def)

lemma round_half_even_examples:
  "round_half_even 6755399441055744 = 6755399441055744"
  "round_half_even 4503599627370496 = 4503599627370496"
  using round_half_even_int[of 6755399441055744] round_half_even_int[of 4503599627370496]
  by simp_all

lemma float64_examples:
  "float64 (- (3 / 4)) = Fin (- (3 / 4))" "float64 3 = Fin 3" "float64 (- 4) = Fin (- 4)"
  unfolding float64_def
  by (simp_all add: floor_log2_examples pow2_examples round_half_even_examples Let_def)

lemma engagement_rate_negative_score:
  "engagement_rate (returned_frame downvoted_batch ! 0) = Fin (- 3 / 4)"
proof -
  have "engagement_rate (returned_frame downvoted_batch ! 0) = ieee_div 3 (wrap64 (- 5 + 1))"
    using engagement_rate_row[OF returned_frame _ downvoted_batch_rows(1,2)] downvoted_batch_length
    by simp
  then show ?thesis
    by (simp add: ieee_div_def wrap64_def float64_examples)
qed

text \<open>
  C2. The claim gives the engagement rate of every post record with an integer score \<open>s\<close> and
  an integer comment count \<open>c\<close> as \<open>c / (s + 1)\<close>, and the script's comment on the line calls
  the \<open>+ 1\<close> a guard against division by zero. With score \<open>-1\<close> the divisor \<open>score + 1\<close> is
  zero and there is no quotient \<open>c / (s + 1)\<close>: the Feature Transformer raises nothing, returns
  the three rows of the batch, and the column \<open>engagement_rate\<close> holds an infinity in row 1
  (score \<open>-1\<close>, three comments) and \<open>NaN\<close> in row 2 (score \<open>-1\<close>, no comment).
\<close>

theorem engagement_rate_zero_divisor:
  "score (downvoted_batch ! 1) = PInt (- 1) \<and> num_comments (downvoted_batch ! 1) = PInt 3 \<and>
   score (downvoted_batch ! 2) = PInt (- 1) \<and> num_comments (downvoted_batch ! 2) = PInt 0 \<and>
   fst (transform_data downvoted_batch empty_world) = Inr (returned_frame downvoted_batch) \<and>
   length (returned_frame downvoted_batch) = 3 \<and>
   engagement_rate (returned_frame downvoted_batch ! 1) = PosInf \<and>
   engagement_rate (returned_frame downvoted_batch ! 2) = NaN"
proof -
  have "engagement_rate (returned_frame downvoted_batch ! 1) = ieee_div 3 (wrap64 (- 1 + 1))"
    using engagement_rate_row[OF returned_frame _ downvoted_batch_rows(3,4)] downvoted_batch_length
    by simp
  moreover have "engagement_rate (returned_frame downvoted_batch ! 2) = ieee_div 0 (wrap64 (- 1 + 1))"
    using engagement_rate_row[OF returned_frame _ downvoted_batch_rows(5,6)] downvoted_batch_length
    by simp
  ultimately show ?thesis
    using downvoted_batch_rows(3-6) returned_frame downvoted_batch_length
    by (simp add: ieee_div_def wrap64_def)
qed

subsection \<open>All rows or none\<close>

text \<open>
  C4. For every non-empty batch of raw post records whose numeric fields hold integers,
  the frame the Feature Transformer returns has as many rows as the batch; whenever a
  step of the transformation raises, the error is logged and the empty frame is
  returned; in every case the frame is empty or has one row for each record.
\<close>

theorem transform_all_or_nothing:
  "(posts \<noteq> [] \<and> (\<forall>p\<in>set posts. (\<exists>s. score p = PInt s) \<and> (\<exists>c. num_comments p = PInt c))
      \<longrightarrow> (\<exists>df. fst (transform_data posts w) = Inr df \<and> length df = length posts)) \<and>
   ((\<exists>e. transform_steps posts = Inl e) \<longrightarrow>
      fst (transform_data posts w) = Inr [] \<and>
      (\<exists>e. LogExc ERROR ''Error transforming data: '' e \<in> set (logbook (snd (transform_data posts w))))) \<and>
   (\<exists>df. fst (transform_data posts w) = Inr df \<and> (df = [] \<or> length df = length posts))"
proof (intro conjI impI)
  assume a: "posts \<noteq> [] \<and> (\<forall>p\<in>set posts. (\<exists>s. score p = PInt s) \<and> (\<exists>c. num_comments p = PInt c))"
  then obtain df where "transform_steps posts = Inr df"
    using transform_steps_ints by blast
  then show "\<exists>df. fst (transform_data posts w) = Inr df \<and> length df = length posts"
    using a by (simp add: transform_data_result transform_steps_length)
next
  assume "\<exists>e. transform_steps posts = Inl e"
  then show "fst (transform_data posts w) = Inr []"
    by (auto simp: transform_data_result)
next
  assume "\<exists>e. transform_steps posts = Inl e"
  then obtain e where e: "transform_steps posts = Inl e" by blast
  then have "posts \<noteq> []" by (auto simp: transform_steps_def Let_def add_scalar_def truediv_def pd_cut_def score_bins_def score_labels_def)
  with e have "LogExc ERROR ''Error transforming data: '' e \<in> set (logbook (snd (transform_data posts w)))"
    by (simp add: transform_data_def try_except_def and_then_def logger_def done_with_def lift_def)
  then show "\<exists>e. LogExc ERROR ''Error transforming data: '' e \<in> set (logbook (snd (transform_data posts w)))"
    by blast
next
  show "\<exists>df. fst (transform_data posts w) = Inr df \<and> (df = [] \<or> length df = length posts)"
    by (auto simp: transform_data_result transform_steps_length split: sum.splits)
qed

text \<open>The batch of the seven boundary scores, and the batch with a string score.\<close>

lemma malformed_batch_fails: "transform_steps malformed_batch = Inl TypeError"
  by (simp add: malformed_batch_def sample_post_def transform_steps_def Let_def add_scalar_def)

theorem transform_all_or_nothing_witness:
  "boundary_batch \<noteq> [] \<and>
   map score boundary_batch = map PInt [0, 10, 11, 100, 101, 1000, 1001] \<and>
   map num_comments boundary_batch = map PInt [3, 3, 3, 3, 3, 3, 3] \<and>
   length (returned_frame boundary_batch) = 7 \<and>
   transform_steps malformed_batch = Inl TypeError \<and>
   fst (transform_data malformed_batch empty_world) = Inr []"
proof -
  have v: "boundary_batch \<noteq> [] \<and>
      (\<forall>p\<in>set boundary_batch. (\<exists>s. score p = PInt s) \<and> (\<exists>c. num_comments p = PInt c))"
    using boundary_batch_ints boundary_batch_length by auto
  have "\<exists>df. fst (transform_data boundary_batch empty_world) = Inr df \<and> length df = length boundary_batch"
    using transform_all_or_nothing[of boundary_batch empty_world] v by blast
  then have l: "length (returned_frame boundary_batch) = 7"
    by (auto simp: returned_frame_def boundary_batch_length)
  have m: "fst (transform_data malformed_batch empty_world) = Inr []"
    using transform_all_or_nothing[of malformed_batch empty_world] malformed_batch_fails by blast
  have s: "map score boundary_batch = map PInt [0, 10, 11, 100, 101, 1000, 1001]"
    "map num_comments boundary_batch = map PInt [3, 3, 3, 3, 3, 3, 3]"
    by (simp_all add: boundary_batch_def sample_post_def)
  from v l m s malformed_batch_fails show ?thesis by blast
qed

subsection \<open>An absent body\<close>

lemma bodiless_batch_length: "length (returned_frame bodiless_batch) = 2"
proof -
  have "\<forall>p\<in>set bodiless_batch. (\<exists>s. score p = PInt s) \<and> (\<exists>c. num_comments p = PInt c)"
    by (simp add: bodiless_batch_def sample_post_def)
  from returned_frame_length[OF this] show ?thesis by (simp add: bodiless_batch_def)
qed

lemma bodiless_batch_bodies:
  "selftext (bodiless_batch ! 0) = Some ''hello''" "selftext (bodiless_batch ! 1) = None"
  by (simp_all add: bodiless_batch_def sample_post_def)

text \<open>
  C7 asks for \<open>selftext_length = 0\<close> on a record without a body. The script takes the
  length before it fills the missing body with the empty string: in the second row of
  this batch the stored body is the empty string and \<open>has_selftext\<close> is false, as C7 says,
  and the length is \<open>NaN\<close> (\<open>None\<close>), not 0.
\<close>

theorem absent_body_length_is_nan:
  "selftext (bodiless_batch ! 1) = None \<and>
   selftext_length (returned_frame bodiless_batch ! 1) = None \<and>
   selftext_length (returned_frame bodiless_batch ! 1) \<noteq> Some 0 \<and>
   has_selftext (returned_frame bodiless_batch ! 1) = False \<and>
   selftext (returned_frame bodiless_batch ! 1) = Some [] \<and>
   selftext_length (returned_frame bodiless_batch ! 0) = Some 5"
proof -
  have l1: "1 < length (returned_frame bodiless_batch)" and l0: "0 < length (returned_frame bodiless_batch)"
    using bodiless_batch_length by simp_all
  note r1 = text_fields_row[OF returned_frame l1] and r0 = text_fields_row[OF returned_frame l0]
  have "selftext_length (returned_frame bodiless_batch ! 1) = None"
    using r1(2) bodiless_batch_bodies(2) by simp
  moreover have "has_selftext (returned_frame bodiless_batch ! 1) = False"
    using r1(3) bodiless_batch_bodies(2) by simp
  moreover have "selftext (returned_frame bodiless_batch ! 1) = Some []"
    using r1(4) bodiless_batch_bodies(2) by (simp add: fillna_def)
  moreover have "selftext_length (returned_frame bodiless_batch ! 0) = Some 5"
    using r0(2) bodiless_batch_bodies(1) by simp
  ultimately show ?thesis
    using bodiless_batch_bodies(2) by simp
qed

section \<open>Properties of the Store Adapter\<close>

subsection \<open>The daily rollup\<close>










section \<open>Properties of the stages\<close>

subsection \<open>Results and effects of each stage\<close>

lemmas io_defs = and_then_def try_except_def done_with_def raise_def lift_def logger_def
  note_call_def connect_def

lemma extract_posts_fst:
  "fst (extract_posts env n l s w) =
     Inr (case iterate_listing env (feed_of s) n l of Inl e \<Rightarrow> [] | Inr ps \<Rightarrow> map (post_data env) ps)"
  by (cases "iterate_listing env (feed_of s) n l")
     (simp_all add: extract_posts_def io_defs Let_def)

lemma extract_posts_snd:
  "calls (snd (extract_posts env n l s w)) = calls w @ [ExtractPosts n]"
  "tbl_posts (snd (extract_posts env n l s w)) = tbl_posts w"
  "tbl_comments (snd (extract_posts env n l s w)) = tbl_comments w"
  "tbl_stats (snd (extract_posts env n l s w)) = tbl_stats w"
  "\<exists>lg. logbook (snd (extract_posts env n l s w)) = logbook w @ lg"
  by (cases "iterate_listing env (feed_of s) n l";
      simp add: extract_posts_def io_defs Let_def)+


lemma transform_data_logbook:
  "\<exists>lg. logbook (snd (transform_data posts w)) = logbook w @ lg"
  by (cases "transform_steps posts") (simp_all add: transform_data_def io_defs)

lemma load_posts_fst: "fst (load_posts env df w) = Inr ()"
  by (simp add: load_posts_def io_defs to_sql_posts_def Let_def)

lemma load_posts_snd:
  "calls (snd (load_posts env df w)) = calls w @ [LoadPosts (length df)]"
  "tbl_comments (snd (load_posts env df w)) = tbl_comments w"
  "tbl_stats (snd (load_posts env df w)) = tbl_stats w"
  "\<exists>lg. logbook (snd (load_posts env df w)) = logbook w @ lg"
  by (simp_all add: load_posts_def io_defs to_sql_posts_def Let_def)

lemma extract_comments_fst:
  "fst (extract_comments env post_id limit w) =
     Inr (case comment_forest env post_id of
            Inl e \<Rightarrow> []
          | Inr forest \<Rightarrow>
              comments_data env post_id
                (slice_to (comments_list (concat (map replace_more_0 forest))) limit))"
  by (cases "comment_forest env post_id") (simp_all add: extract_comments_def io_defs Let_def)

lemma extract_comments_snd:
  "calls (snd (extract_comments env post_id limit w)) = calls w @ [ExtractComments post_id]"
  "tbl_posts (snd (extract_comments env post_id limit w)) = tbl_posts w"
  "tbl_comments (snd (extract_comments env post_id limit w)) = tbl_comments w"
  "tbl_stats (snd (extract_comments env post_id limit w)) = tbl_stats w"
  "\<exists>lg. logbook (snd (extract_comments env post_id limit w)) = logbook w @ lg"
  by (cases "comment_forest env post_id"; simp add: extract_comments_def io_defs Let_def)+

lemma load_comments_fst: "fst (load_comments env cs w) = Inr ()"
  by (simp add: load_comments_def io_defs to_sql_comments_def Let_def)

lemma load_comments_snd:
  "calls (snd (load_comments env cs w)) = calls w @ [LoadComments (length cs)]"
  "tbl_posts (snd (load_comments env cs w)) = tbl_posts w"
  "tbl_stats (snd (load_comments env cs w)) = tbl_stats w"
  "\<exists>lg. logbook (snd (load_comments env cs w)) = logbook w @ lg"
  by (simp_all add: load_comments_def io_defs to_sql_comments_def Let_def)

lemma load_comments_empty:
  "tbl_comments (snd (load_comments env [] w)) = tbl_comments w"
  by (simp add: load_comments_def io_defs)

lemma generate_subreddit_stats_fst: "fst (generate_subreddit_stats env n w) = Inr ()"
  by (simp add: generate_subreddit_stats_def io_defs execute_rollup_def)

lemma generate_subreddit_stats_snd:
  "calls (snd (generate_subreddit_stats env n w)) = calls w @ [GenerateStats n]"
  "tbl_posts (snd (generate_subreddit_stats env n w)) = tbl_posts w"
  "tbl_comments (snd (generate_subreddit_stats env n w)) = tbl_comments w"
  "\<exists>lg. logbook (snd (generate_subreddit_stats env n w)) = logbook w @ lg"
  by (simp_all add: generate_subreddit_stats_def io_defs execute_rollup_def)

lemma setup_database_run:
  "setup_database env w =
     (if db_ok env
      then (Inr (), w\<lparr>calls := calls w @ [SetupDatabase],
                       logbook := logbook w @ [Log INFO ''Database tables created successfully'']\<rparr>)
      else (Inl OperationalError,
            w\<lparr>calls := calls w @ [SetupDatabase],
              logbook := logbook w @ [LogExc ERROR ''Error setting up database: '' OperationalError]\<rparr>))"
  by (simp add: setup_database_def io_defs)


lemma and_then_alt:
  "and_then m f w = (case fst (m w) of Inl e \<Rightarrow> (Inl e, snd (m w)) | Inr x \<Rightarrow> f x (snd (m w)))"
  by (cases "m w") (simp add: and_then_def split: sum.splits)

lemma try_except_alt:
  "try_except m h w = (case fst (m w) of Inl e \<Rightarrow> h e (snd (m w)) | Inr x \<Rightarrow> (Inr x, snd (m w)))"
  by (cases "m w") (simp add: try_except_def split: sum.splits)

lemma logger_run:
  "fst (logger r w) = Inr ()"
  "calls (snd (logger r w)) = calls w"
  "tbl_posts (snd (logger r w)) = tbl_posts w"
  "tbl_comments (snd (logger r w)) = tbl_comments w"
  "tbl_stats (snd (logger r w)) = tbl_stats w"
  "logbook (snd (logger r w)) = logbook w @ [r]"
  by (simp_all add: logger_def)

lemma transform_data_calls: "calls (snd (transform_data posts w)) = calls w"
  by (simp add: transform_data_world)

text \<open>The calls of the loop over the top posts.\<close>

lemma comments_loop_fst: "fst (comments_loop env ids w) = Inr ()"
  by (induction ids arbitrary: w)
     (simp_all add: done_with_def and_then_alt extract_comments_fst load_comments_fst)

lemma extract_posts_returned:
  "fst (extract_posts env n l ''hot'' w) = Inr (returned_posts env n l)"
  by (simp add: returned_posts_def extract_posts_fst)

lemma extract_comments_returned:
  "fst (extract_comments env i l w) = Inr (returned_comments env i l)"
  by (simp add: returned_comments_def extract_comments_fst)

lemma comments_loop_calls:
  "calls (snd (comments_loop env ids w)) = calls w @ comment_calls env ids"
  unfolding comment_calls_def
  by (induction ids arbitrary: w)
     (simp_all add: done_with_def and_then_alt extract_comments_returned load_comments_fst
        extract_comments_snd load_comments_snd)


lemma returned_posts_ints:
  "\<forall>p\<in>set (returned_posts env n l). (\<exists>s. score p = PInt s) \<and> (\<exists>c. num_comments p = PInt c)"
  by (cases "iterate_listing env Hot n l")
     (simp_all add: returned_posts_def extract_posts_fst feed_of_def post_data_def)

lemma transform_data_returned_posts:
  "\<exists>df. fst (transform_data (returned_posts env n l) w) = Inr df \<and>
        length df = length (returned_posts env n l)"
proof -
  obtain df where df: "transform_steps (returned_posts env n l) = Inr df"
    using transform_steps_ints[OF returned_posts_ints] by blast
  then have "length df = length (returned_posts env n l)" by (rule transform_steps_length)
  with df show ?thesis by (auto simp: transform_data_result)
qed

lemma run_pipeline_empty:
  assumes "returned_posts env n l = []"
  shows "fst (run_pipeline env n l flag w) = Inr ()"
    and "calls (snd (run_pipeline env n l flag w)) = calls w @ [ExtractPosts n]"
    and "tbl_posts (snd (run_pipeline env n l flag w)) = tbl_posts w"
    and "tbl_comments (snd (run_pipeline env n l flag w)) = tbl_comments w"
    and "tbl_stats (snd (run_pipeline env n l flag w)) = tbl_stats w"
  using assms
  by (simp_all add: run_pipeline_def and_then_alt try_except_alt logger_run extract_posts_returned
      extract_posts_snd)


lemma transform_data_returned: "fst (transform_data posts w) = Inr (returned_frame posts)"
  by (simp add: returned_frame_def transform_data_result)

lemma returned_frame_posts_length:
  "length (returned_frame (returned_posts env n l)) = length (returned_posts env n l)"
  using returned_frame_length[OF returned_posts_ints] .

lemma returned_frame_posts_empty:
  "returned_frame (returned_posts env n l) = [] \<longleftrightarrow> returned_posts env n l = []"
  using returned_frame_posts_length[of env n l] by (metis length_0_conv)

lemma top_posts_run:
  "fst (top_posts env df w) =
     (case nlargest_fault env df of Some e \<Rightarrow> Inl e | None \<Rightarrow> Inr (map ident (nlargest 10 df)))"
  "snd (top_posts env df w) = w"
  by (simp_all add: top_posts_def raise_def done_with_def split: option.splits)

lemma run_pipeline_fst:
  "fst (run_pipeline env n l flag w) =
     (if returned_posts env n l = [] \<or> \<not> flag then Inr ()
      else case nlargest_fault env (returned_frame (returned_posts env n l)) of
             Some e \<Rightarrow> Inl e
           | None \<Rightarrow> Inr ())"
  by (simp add: run_pipeline_def and_then_alt try_except_alt logger_run extract_posts_returned
      transform_data_returned returned_frame_posts_empty load_posts_fst top_posts_run
      comments_loop_fst generate_subreddit_stats_fst done_with_def raise_def
      split: option.splits)

lemma run_pipeline_calls:
  "calls (snd (run_pipeline env n l flag w)) =
     calls w @ ExtractPosts n #
       (if returned_posts env n l = [] then []
        else LoadPosts (length (returned_posts env n l)) #
          (if flag
           then (case nlargest_fault env (returned_frame (returned_posts env n l)) of
                   Some e \<Rightarrow> []
                 | None \<Rightarrow>
                     comment_calls env (map ident (nlargest 10 (returned_frame (returned_posts env n l))))
                     @ [GenerateStats n])
           else [GenerateStats n]))"
  by (simp add: run_pipeline_def and_then_alt try_except_alt logger_run extract_posts_returned
      transform_data_returned returned_frame_posts_empty load_posts_fst top_posts_run
      comments_loop_fst generate_subreddit_stats_fst done_with_def raise_def
      extract_posts_snd transform_data_calls load_posts_snd comments_loop_calls
      generate_subreddit_stats_snd returned_frame_posts_length
      split: option.splits)

lemma keeps_log_basic:
  "keeps_log (done_with x)" "keeps_log (raise e)" "keeps_log (lift r)" "keeps_log (logger rec)"
  "keeps_log (note_call c)" "keeps_log (connect env)"
  by (simp_all add: keeps_log_def io_defs)

lemma keeps_log_and_then:
  assumes "keeps_log m" and "\<And>x. keeps_log (f x)"
  shows "keeps_log (and_then m f)"
  unfolding keeps_log_def
proof
  fix w
  from assms(1) obtain l1 where l1: "logbook (snd (m w)) = logbook w @ l1"
    unfolding keeps_log_def by blast
  show "\<exists>lg. logbook (snd (and_then m f w)) = logbook w @ lg"
  proof (cases "fst (m w)")
    case (Inl e)
    then show ?thesis using l1 by (simp add: and_then_alt)
  next
    case (Inr x)
    from assms(2)[of x] obtain l2 where "logbook (snd (f x (snd (m w)))) = logbook (snd (m w)) @ l2"
      unfolding keeps_log_def by blast
    with Inr l1 show ?thesis by (simp add: and_then_alt)
  qed
qed

lemma keeps_log_try_except:
  assumes "keeps_log m" and "\<And>e. keeps_log (h e)"
  shows "keeps_log (try_except m h)"
  unfolding keeps_log_def
proof
  fix w
  from assms(1) obtain l1 where l1: "logbook (snd (m w)) = logbook w @ l1"
    unfolding keeps_log_def by blast
  show "\<exists>lg. logbook (snd (try_except m h w)) = logbook w @ lg"
  proof (cases "fst (m w)")
    case (Inr x)
    then show ?thesis using l1 by (simp add: try_except_alt)
  next
    case (Inl e)
    from assms(2)[of e] obtain l2 where "logbook (snd (h e (snd (m w)))) = logbook (snd (m w)) @ l2"
      unfolding keeps_log_def by blast
    with Inl l1 show ?thesis by (simp add: try_except_alt)
  qed
qed

lemma keeps_log_if: "keeps_log a \<Longrightarrow> keeps_log b \<Longrightarrow> keeps_log (if c then a else b)"
  by simp

lemmas keeps_log_intros = keeps_log_and_then keeps_log_try_except keeps_log_if keeps_log_basic

lemma keeps_log_stages:
  "keeps_log (extract_posts env n l s)"
  "keeps_log (transform_data posts)"
  "keeps_log (load_posts env df)"
  "keeps_log (extract_comments env i k)"
  "keeps_log (load_comments env cs)"
  "keeps_log (generate_subreddit_stats env n)"
  "keeps_log (top_posts env df)"
  by (simp_all add: keeps_log_def extract_posts_snd transform_data_logbook load_posts_snd
      extract_comments_snd load_comments_snd generate_subreddit_stats_snd top_posts_run)

lemma keeps_log_comments_loop: "keeps_log (comments_loop env ids)"
proof (induction ids)
  case Nil
  have "comments_loop env [] = done_with ()" by (rule ext) simp
  then show ?case by (simp add: keeps_log_basic)
next
  case (Cons i ids)
  have "comments_loop env (i # ids) =
          and_then (extract_comments env i 20) (\<lambda>comments.
          and_then (load_comments env comments) (\<lambda>_. comments_loop env ids))"
    by (rule ext) simp
  then show ?case
    using Cons by (simp add: keeps_log_intros keeps_log_stages)
qed

lemma keeps_log_run_pipeline: "keeps_log (run_pipeline env n l flag)"
  unfolding run_pipeline_def
  by (intro keeps_log_intros keeps_log_stages keeps_log_comments_loop)

lemma keeps_log_main_loop: "keeps_log (main_loop env subs)"
proof (induction subs)
  case Nil
  have "main_loop env [] = done_with ()" by (rule ext) simp
  then show ?case by (simp add: keeps_log_basic)
next
  case (Cons sub rest)
  have "main_loop env (sub # rest) =
     and_then
       (try_except
          (and_then (logger (Log INFO (CHR 0x0A # rule_line))) (\<lambda>_.
           and_then (logger (Log INFO (''Processing r/'' @ sub))) (\<lambda>_.
           and_then (logger (Log INFO rule_line)) (\<lambda>_.
           run_pipeline env sub 50 True))))
          (\<lambda>e. logger (LogExc ERROR (''Failed to process r/'' @ sub @ '': '') e)))
       (\<lambda>_. main_loop env rest)"
    by (rule ext) simp
  then show ?case
    using Cons by (simp add: keeps_log_intros keeps_log_run_pipeline)
qed

lemma logbook_kept: "keeps_log m \<Longrightarrow> r \<in> set (logbook w) \<Longrightarrow> r \<in> set (logbook (snd (m w)))"
  unfolding keeps_log_def by (metis Un_iff set_append)

lemma requested_append: "requested (xs @ ys) = requested xs @ requested ys"
  by (induction xs rule: requested.induct) simp_all

lemma requested_comment_calls: "requested (comment_calls env ids) = []"
  unfolding comment_calls_def by (induction ids) simp_all

lemma run_pipeline_requested:
  "requested (calls (snd (run_pipeline env n l flag w))) = requested (calls w) @ [n]"
  by (simp add: run_pipeline_calls requested_append requested_comment_calls split: option.splits)

lemma run_pipeline_fst_any:
  "fst (run_pipeline env n l flag w) = fst (run_pipeline env n l flag w')"
  by (simp add: run_pipeline_fst)

lemma try_log_raise:
  assumes "fst (try_except m (\<lambda>e. and_then (logger (LogExc lv msg e)) (\<lambda>_. raise e)) w) = Inl e"
  shows "LogExc lv msg e
           \<in> set (logbook (snd (try_except m (\<lambda>e. and_then (logger (LogExc lv msg e)) (\<lambda>_. raise e)) w)))"
proof (cases "fst (m w)")
  case (Inr x)
  with assms show ?thesis by (simp add: try_except_alt)
next
  case (Inl e')
  with assms have "e' = e" by (simp add: try_except_alt and_then_alt logger_run raise_def)
  with Inl show ?thesis by (simp add: try_except_alt and_then_alt logger_run raise_def)
qed

lemma run_pipeline_error_logged:
  assumes "fst (run_pipeline env n l flag w) = Inl e"
  shows "LogExc ERROR ''Error in ETL pipeline: '' e \<in> set (logbook (snd (run_pipeline env n l flag w)))"
  using assms unfolding run_pipeline_def by (rule try_log_raise)

text \<open>One turn of the loop of \<open>main\<close>: \<open>w3\<close> is the state after the three header lines.\<close>

lemma main_loop_Cons:
  "\<exists>w3 w'. main_loop env (sub # rest) w = main_loop env rest w' \<and>
        calls w3 = calls w \<and> tbl_posts w3 = tbl_posts w \<and> tbl_comments w3 = tbl_comments w \<and>
        tbl_stats w3 = tbl_stats w \<and>
        calls w' = calls (snd (run_pipeline env sub 50 True w3)) \<and>
        tbl_posts w' = tbl_posts (snd (run_pipeline env sub 50 True w3)) \<and>
        tbl_comments w' = tbl_comments (snd (run_pipeline env sub 50 True w3)) \<and>
        tbl_stats w' = tbl_stats (snd (run_pipeline env sub 50 True w3)) \<and>
        (\<forall>e. fst (run_pipeline env sub 50 True w3) = Inl e \<longrightarrow>
             LogExc ERROR (''Failed to process r/'' @ sub @ '': '') e \<in> set (logbook w'))"
proof -
  let ?w3 = "snd (logger (Log INFO rule_line)
               (snd (logger (Log INFO (''Processing r/'' @ sub))
                  (snd (logger (Log INFO (CHR 0x0A # rule_line)) w)))))"
  let ?r = "run_pipeline env sub 50 True ?w3"
  let ?w' = "(case fst ?r of
                Inl e \<Rightarrow> snd (logger (LogExc ERROR (''Failed to process r/'' @ sub @ '': '') e) (snd ?r))
              | Inr x \<Rightarrow> snd ?r)"
  have step: "main_loop env (sub # rest) w = main_loop env rest ?w'"
    by (cases "fst ?r") (simp_all add: and_then_alt try_except_alt logger_run)
  have same: "calls ?w3 = calls w" "tbl_posts ?w3 = tbl_posts w" "tbl_comments ?w3 = tbl_comments w"
    "tbl_stats ?w3 = tbl_stats w"
    by (simp_all add: logger_run)
  have after: "calls ?w' = calls (snd ?r)" "tbl_posts ?w' = tbl_posts (snd ?r)"
    "tbl_comments ?w' = tbl_comments (snd ?r)" "tbl_stats ?w' = tbl_stats (snd ?r)"
    by (cases "fst ?r"; simp add: logger_run)+
  have logged: "\<forall>e. fst ?r = Inl e \<longrightarrow>
             LogExc ERROR (''Failed to process r/'' @ sub @ '': '') e \<in> set (logbook ?w')"
    by (simp add: logger_run)
  show ?thesis
    using step same after logged by blast
qed

section \<open>Properties of the Pipeline Orchestrator\<close>

subsection \<open>The loop over the subreddits\<close>

lemma main_loop_fst: "fst (main_loop env subs w) = Inr ()"
proof (induction subs arbitrary: w)
  case Nil
  then show ?case by (simp add: done_with_def)
next
  case (Cons sub rest)
  from main_loop_Cons[of env sub rest w] obtain w' where
    "main_loop env (sub # rest) w = main_loop env rest w'" by blast
  with Cons show ?case by simp
qed

lemma main_loop_requested:
  "requested (calls (snd (main_loop env subs w))) = requested (calls w) @ subs"
proof (induction subs arbitrary: w)
  case Nil
  then show ?case by (simp add: done_with_def)
next
  case (Cons sub rest)
  from main_loop_Cons[of env sub rest w] obtain w3 w' where
    step: "main_loop env (sub # rest) w = main_loop env rest w'"
    and w3: "calls w3 = calls w"
    and w': "calls w' = calls (snd (run_pipeline env sub 50 True w3))"
    by blast
  have "requested (calls w') = requested (calls w) @ [sub]"
    by (simp add: w' run_pipeline_requested w3)
  with Cons[of w'] step show ?case by simp
qed

lemma main_loop_logged:
  assumes "sub \<in> set subs" and "fst (run_pipeline env sub 50 True w0) = Inl e"
  shows "LogExc ERROR (''Failed to process r/'' @ sub @ '': '') e
           \<in> set (logbook (snd (main_loop env subs w)))"
  using assms(1)
proof (induction subs arbitrary: w)
  case Nil
  then show ?case by simp
next
  case (Cons s rest)
  from main_loop_Cons[of env s rest w] obtain w3 w' where
    step: "main_loop env (s # rest) w = main_loop env rest w'"
    and lg: "\<forall>e. fst (run_pipeline env s 50 True w3) = Inl e \<longrightarrow>
             LogExc ERROR (''Failed to process r/'' @ s @ '': '') e \<in> set (logbook w')"
    by blast
  show ?case
  proof (cases "sub = s")
    case True
    have "fst (run_pipeline env s 50 True w3) = Inl e"
      using assms(2) True run_pipeline_fst_any[of env s 50 True w3 w0] by simp
    with lg True have "LogExc ERROR (''Failed to process r/'' @ sub @ '': '') e \<in> set (logbook w')"
      by simp
    then show ?thesis
      using step logbook_kept[OF keeps_log_main_loop] by simp
  next
    case False
    with Cons.prems have "sub \<in> set rest" by simp
    from Cons.IH[OF this, of w'] step show ?thesis by simp
  qed
qed

lemma run_pipeline_pipeline_calls:
  "calls (snd (run_pipeline env n l flag w)) = calls w @ pipeline_calls env n l flag"
  by (simp add: pipeline_calls_def run_pipeline_calls empty_world_def)

lemma main_loop_calls:
  "calls (snd (main_loop env subs w)) =
     calls w @ concat (map (\<lambda>n. pipeline_calls env n 50 True) subs)"
proof (induction subs arbitrary: w)
  case Nil
  then show ?case by (simp add: done_with_def)
next
  case (Cons sub rest)
  from main_loop_Cons[of env sub rest w] obtain w3 w' where
    step: "main_loop env (sub # rest) w = main_loop env rest w'"
    and w3: "calls w3 = calls w"
    and w': "calls w' = calls (snd (run_pipeline env sub 50 True w3))"
    by blast
  have "calls w' = calls w @ pipeline_calls env sub 50 True"
    by (simp add: w' run_pipeline_pipeline_calls w3)
  with Cons[of w'] step show ?case by simp
qed

lemma returned_frame_steps:
  assumes "\<forall>p\<in>set posts. (\<exists>s. score p = PInt s) \<and> (\<exists>c. num_comments p = PInt c)"
    and "posts \<noteq> []"
  shows "transform_steps posts = Inr (returned_frame posts)"
proof -
  obtain df where df: "transform_steps posts = Inr df"
    using transform_steps_ints[OF assms(1)] by blast
  with assms(2) have "returned_frame posts = df"
    by (simp add: returned_frame_def transform_data_result)
  with df show ?thesis by simp
qed

lemma returned_frame_idents:
  assumes "\<forall>p\<in>set posts. (\<exists>s. score p = PInt s) \<and> (\<exists>c. num_comments p = PInt c)"
  shows "map ident (returned_frame posts) = map ident posts"
proof (cases "posts = []")
  case True
  then show ?thesis by (simp add: returned_frame_def transform_data_result)
next
  case False
  note st = returned_frame_steps[OF assms False]
  have len: "length (returned_frame posts) = length posts"
    using st by (rule transform_steps_length)
  show ?thesis
  proof (rule nth_equalityI)
    show "length (map ident (returned_frame posts)) = length (map ident posts)"
      using len by simp
  next
    fix i assume "i < length (map ident (returned_frame posts))"
    then have i: "i < length posts" using len by simp
    from transform_steps_row[OF st i] have "ident (returned_frame posts ! i) = ident (posts ! i)"
      by blast
    with i len show "map ident (returned_frame posts) ! i = map ident posts ! i" by simp
  qed
qed

lemma nlargest_single: "length df = 1 \<Longrightarrow> nlargest 10 df = df"
  by (cases df) (simp_all add: nlargest_def)

text \<open>
  C1. For every list of subreddit names the loop of \<open>main\<close> ends without raising; the
  pipeline is started for every name of the list, in order (each run begins by asking for
  the posts of its subreddit); the calls of the batch are the calls each run makes on its
  own, one run after the other, whatever the earlier runs did; and when the run of a
  subreddit raises, the error is logged by the handler of the loop.
\<close>

theorem batch_isolation:
  "fst (main_loop env subs w) = Inr () \<and>
   requested (calls (snd (main_loop env subs w))) = requested (calls w) @ subs \<and>
   calls (snd (main_loop env subs w)) =
     calls w @ concat (map (\<lambda>n. pipeline_calls env n 50 True) subs) \<and>
   (\<forall>sub\<in>set subs. \<forall>e. fst (run_pipeline env sub 50 True w) = Inl e \<longrightarrow>
      LogExc ERROR (''Failed to process r/'' @ sub @ '': '') e
        \<in> set (logbook (snd (main_loop env subs w))))"
  using main_loop_fst main_loop_requested main_loop_calls main_loop_logged by blast


text \<open>
  In \<open>faulty_env\<close> the run for \<open>bad\<close> raises after its load; the run for \<open>good\<close> follows
  and goes through all its stages.
\<close>

lemma faulty_posts:
  "returned_posts faulty_env ''bad'' 50 = [post_data faulty_env (sample_submission ''q1'' ''bad'' 4)]"
  "returned_posts faulty_env ''good'' 50 = [post_data faulty_env (sample_submission ''p1'' ''good'' 7)]"
  by (simp_all add: returned_posts_def extract_posts_fst iterate_listing_def feed_of_def faulty_env_def)

lemma faulty_idents:
  "map ident (returned_frame (returned_posts faulty_env ''bad'' 50)) = [''q1'']"
  "map ident (returned_frame (returned_posts faulty_env ''good'' 50)) = [''p1'']"
  by (simp_all add: returned_frame_idents[OF returned_posts_ints])
     (simp_all add: faulty_posts post_data_def sample_submission_def)

lemma faulty_fault:
  "nlargest_fault faulty_env (returned_frame (returned_posts faulty_env ''bad'' 50)) = Some MemoryError"
  "nlargest_fault faulty_env (returned_frame (returned_posts faulty_env ''good'' 50)) = None"
proof -
  have f: "nlargest_fault faulty_env df = (if ''q1'' \<in> set (map ident df) then Some MemoryError else None)"
    for df by (simp add: faulty_env_def)
  show "nlargest_fault faulty_env (returned_frame (returned_posts faulty_env ''bad'' 50)) = Some MemoryError"
    unfolding f faulty_idents by simp
  show "nlargest_fault faulty_env (returned_frame (returned_posts faulty_env ''good'' 50)) = None"
    unfolding f faulty_idents by simp
qed

lemma faulty_bad_raises: "fst (run_pipeline faulty_env ''bad'' 50 True empty_world) = Inl MemoryError"
  by (simp add: run_pipeline_fst faulty_fault) (simp add: faulty_posts)

lemma faulty_comments: "length (returned_comments faulty_env ''p1'' 20) = 1"
  by (simp add: returned_comments_def extract_comments_fst faulty_env_def slice_to_def)

lemma faulty_calls:
  "pipeline_calls faulty_env ''bad'' 50 True = [ExtractPosts ''bad'', LoadPosts 1]"
  "pipeline_calls faulty_env ''good'' 50 True =
     [ExtractPosts ''good'', LoadPosts 1, ExtractComments ''p1'', LoadComments 1, GenerateStats ''good'']"
proof -
  show "pipeline_calls faulty_env ''bad'' 50 True = [ExtractPosts ''bad'', LoadPosts 1]"
    by (simp add: pipeline_calls_def run_pipeline_calls faulty_fault empty_world_def)
       (simp add: faulty_posts)
  have "length (returned_frame (returned_posts faulty_env ''good'' 50)) = 1"
    unfolding returned_frame_posts_length by (simp add: faulty_posts)
  then have "map ident (nlargest 10 (returned_frame (returned_posts faulty_env ''good'' 50))) = [''p1'']"
    by (simp add: nlargest_single faulty_idents)
  then show "pipeline_calls faulty_env ''good'' 50 True =
     [ExtractPosts ''good'', LoadPosts 1, ExtractComments ''p1'', LoadComments 1, GenerateStats ''good'']"
    by (simp add: pipeline_calls_def run_pipeline_calls faulty_fault empty_world_def comment_calls_def
        faulty_comments)
       (simp add: faulty_posts)
qed

theorem batch_isolation_witness:
  "fst (run_pipeline faulty_env ''bad'' 50 True empty_world) = Inl MemoryError \<and>
   fst (main_loop faulty_env [''bad'', ''good''] empty_world) = Inr () \<and>
   requested (calls (snd (main_loop faulty_env [''bad'', ''good''] empty_world))) = [''bad'', ''good''] \<and>
   calls (snd (main_loop faulty_env [''bad'', ''good''] empty_world)) =
     [ExtractPosts ''bad'', LoadPosts 1,
      ExtractPosts ''good'', LoadPosts 1, ExtractComments ''p1'', LoadComments 1, GenerateStats ''good''] \<and>
   LogExc ERROR ''Failed to process r/bad: '' MemoryError
     \<in> set (logbook (snd (main_loop faulty_env [''bad'', ''good''] empty_world)))"
proof -
  note t = batch_isolation[of faulty_env "[''bad'', ''good'']" empty_world]
  have c: "calls empty_world = []" by (simp add: empty_world_def)
  have "LogExc ERROR (''Failed to process r/'' @ ''bad'' @ '': '') MemoryError
     \<in> set (logbook (snd (main_loop faulty_env [''bad'', ''good''] empty_world)))"
    using t faulty_bad_raises by simp
  then show ?thesis
    using t faulty_bad_raises by (simp add: c faulty_calls)
qed

subsection \<open>The tables after a run\<close>








subsection \<open>A run without posts\<close>

text \<open>
  C9. For every subreddit whose post extraction returns an empty sequence, the run of the
  pipeline returns without raising, leaves the three tables as they were and makes no
  call but the extraction of the posts (no load, no comment extraction, no rollup); and
  the loop of \<open>main\<close> goes on with the next subreddit.
\<close>

theorem empty_extraction_stops:
  assumes "fst (extract_posts env name limit ''hot'' w) = Inr []"
  shows "fst (run_pipeline env name limit flag w) = Inr () \<and>
         calls (snd (run_pipeline env name limit flag w)) = calls w @ [ExtractPosts name] \<and>
         tbl_posts (snd (run_pipeline env name limit flag w)) = tbl_posts w \<and>
         tbl_comments (snd (run_pipeline env name limit flag w)) = tbl_comments w \<and>
         tbl_stats (snd (run_pipeline env name limit flag w)) = tbl_stats w \<and>
         (limit = 50 \<longrightarrow>
            (\<exists>w'. main_loop env (name # rest) w = main_loop env rest w' \<and>
                  calls w' = calls w @ [ExtractPosts name] \<and>
                  tbl_posts w' = tbl_posts w \<and> tbl_comments w' = tbl_comments w \<and>
                  tbl_stats w' = tbl_stats w))"
proof -
  have e: "returned_posts env name limit = []"
    using assms by (simp add: extract_posts_returned)
  note r = run_pipeline_empty[OF e]
  have "\<exists>w'. main_loop env (name # rest) w = main_loop env rest w' \<and>
                  calls w' = calls w @ [ExtractPosts name] \<and>
                  tbl_posts w' = tbl_posts w \<and> tbl_comments w' = tbl_comments w \<and>
                  tbl_stats w' = tbl_stats w" if "limit = 50"
  proof -
    from main_loop_Cons[of env name rest w] obtain w3 w' where
      step: "main_loop env (name # rest) w = main_loop env rest w'"
      and w3: "calls w3 = calls w" "tbl_posts w3 = tbl_posts w" "tbl_comments w3 = tbl_comments w"
        "tbl_stats w3 = tbl_stats w"
      and w': "calls w' = calls (snd (run_pipeline env name 50 True w3))"
        "tbl_posts w' = tbl_posts (snd (run_pipeline env name 50 True w3))"
        "tbl_comments w' = tbl_comments (snd (run_pipeline env name 50 True w3))"
        "tbl_stats w' = tbl_stats (snd (run_pipeline env name 50 True w3))"
      by blast
    have e50: "returned_posts env name 50 = []" using e that by simp
    note r50 = run_pipeline_empty[OF e50, of True w3]
    have "calls w' = calls w @ [ExtractPosts name]" "tbl_posts w' = tbl_posts w"
      "tbl_comments w' = tbl_comments w" "tbl_stats w' = tbl_stats w"
      by (simp_all add: w' r50 w3)
    with step show ?thesis by blast
  qed
  with r show ?thesis by simp
qed

text \<open>
  In \<open>faulty_env\<close> the listing of \<open>down\<close> fails, so its extraction returns nothing; the run
  for \<open>good\<close> follows.
\<close>

theorem empty_extraction_stops_witness:
  "fst (extract_posts faulty_env ''down'' 50 ''hot'' dup_world) = Inr [] \<and>
   fst (run_pipeline faulty_env ''down'' 50 True dup_world) = Inr () \<and>
   calls (snd (run_pipeline faulty_env ''down'' 50 True dup_world)) = [ExtractPosts ''down''] \<and>
   tbl_posts (snd (run_pipeline faulty_env ''down'' 50 True dup_world)) = tbl_posts dup_world \<and>
   tbl_comments (snd (run_pipeline faulty_env ''down'' 50 True dup_world)) = [] \<and>
   tbl_stats (snd (run_pipeline faulty_env ''down'' 50 True dup_world)) = [] \<and>
   calls (snd (main_loop faulty_env [''down'', ''good''] dup_world)) =
     [ExtractPosts ''down'', ExtractPosts ''good'', LoadPosts 1, ExtractComments ''p1'',
      LoadComments 1, GenerateStats ''good'']"
proof -
  have e: "fst (extract_posts faulty_env ''down'' 50 ''hot'' dup_world) = Inr []"
    by (simp add: extract_posts_fst iterate_listing_def feed_of_def faulty_env_def)
  have w: "calls dup_world = []" "tbl_comments dup_world = []" "tbl_stats dup_world = []"
    by (simp_all add: dup_world_def empty_world_def)
  note t = empty_extraction_stops[OF e, of True "[''good'']"]
  from t obtain w' where
    step: "main_loop faulty_env [''down'', ''good''] dup_world = main_loop faulty_env [''good''] w'"
    and c: "calls w' = calls dup_world @ [ExtractPosts ''down'']"
    by blast
  have "calls (snd (main_loop faulty_env [''down'', ''good''] dup_world)) =
     [ExtractPosts ''down'', ExtractPosts ''good'', LoadPosts 1, ExtractComments ''p1'',
      LoadComments 1, GenerateStats ''good'']"
    unfolding step by (simp add: main_loop_calls c w faulty_calls del: main_loop.simps)
  with t e show ?thesis by (simp add: w)
qed

subsection \<open>The order of the stages\<close>






subsection \<open>Schema initialization\<close>

lemma main_setup_fails:
  assumes "fst (setup_database env w) = Inl e"
  shows "fst (init env w) = Inl e" and "fst (main env w) = Inl e"
    and "snd (main env w) = snd (setup_database env w)"
  using assms by (simp_all add: main_def init_def and_then_alt)

lemma store_errors_logged:
  assumes "\<not> db_ok env"
  shows "LogExc ERROR ''Error loading data: '' OperationalError
           \<in> set (logbook (snd (load_posts env df w)))"
    and "cs \<noteq> [] \<Longrightarrow> LogExc ERROR ''Error loading comments: '' OperationalError
           \<in> set (logbook (snd (load_comments env cs w)))"
    and "LogExc ERROR ''Error generating statistics: '' OperationalError
           \<in> set (logbook (snd (generate_subreddit_stats env n w)))"
  using assms
  by (simp_all add: load_posts_def load_comments_def generate_subreddit_stats_def io_defs)

lemma extraction_errors_logged:
  "iterate_listing env (feed_of s) n l = Inl e \<Longrightarrow>
     LogExc ERROR ''Error extracting posts: '' e \<in> set (logbook (snd (extract_posts env n l s w)))"
  "comment_forest env i = Inl e \<Longrightarrow>
     LogExc ERROR (''Error extracting comments for post '' @ i @ '': '') e
       \<in> set (logbook (snd (extract_comments env i k w)))"
  "posts \<noteq> [] \<Longrightarrow> transform_steps posts = Inl e \<Longrightarrow>
     LogExc ERROR ''Error transforming data: '' e \<in> set (logbook (snd (transform_data posts w)))"
  by (simp_all add: extract_posts_def extract_comments_def transform_data_def io_defs Let_def)

text \<open>
  C10. Schema initialization is the one operation that raises again on failure: when
  \<open>setup_database\<close> raises, the error is logged and leaves the constructor and \<open>main\<close>, the
  only call made is the schema initialization, no table is touched and no subreddit is
  processed; it fails exactly when the database cannot be opened. The loads, the rollup,
  the two extractions and the transformation never raise: they catch, log and return.
  When the database cannot be opened each of the three store operations logs the error it
  caught, and an extraction or a transformation whose source call or computation fails
  logs that error.
\<close>

theorem schema_failure_propagates:
  "(\<forall>e. fst (setup_database env w) = Inl e \<longrightarrow>
      fst (init env w) = Inl e \<and> fst (main env w) = Inl e \<and>
      calls (snd (main env w)) = calls w @ [SetupDatabase] \<and>
      tbl_posts (snd (main env w)) = tbl_posts w \<and>
      tbl_comments (snd (main env w)) = tbl_comments w \<and>
      tbl_stats (snd (main env w)) = tbl_stats w \<and>
      LogExc ERROR ''Error setting up database: '' e \<in> set (logbook (snd (main env w)))) \<and>
   (fst (setup_database env w) = Inr () \<longleftrightarrow> db_ok env) \<and>
   fst (load_posts env df w) = Inr () \<and>
   fst (load_comments env cs w) = Inr () \<and>
   fst (generate_subreddit_stats env n w) = Inr () \<and>
   (\<exists>ps. fst (extract_posts env n l s w) = Inr ps) \<and>
   (\<exists>cs'. fst (extract_comments env i k w) = Inr cs') \<and>
   (\<exists>df'. fst (transform_data posts w) = Inr df') \<and>
   (\<not> db_ok env \<longrightarrow>
      LogExc ERROR ''Error loading data: '' OperationalError
        \<in> set (logbook (snd (load_posts env df w))) \<and>
      (cs \<noteq> [] \<longrightarrow> LogExc ERROR ''Error loading comments: '' OperationalError
        \<in> set (logbook (snd (load_comments env cs w)))) \<and>
      LogExc ERROR ''Error generating statistics: '' OperationalError
        \<in> set (logbook (snd (generate_subreddit_stats env n w)))) \<and>
   (\<forall>e. iterate_listing env (feed_of s) n l = Inl e \<longrightarrow>
      LogExc ERROR ''Error extracting posts: '' e
        \<in> set (logbook (snd (extract_posts env n l s w)))) \<and>
   (\<forall>e. comment_forest env i = Inl e \<longrightarrow>
      LogExc ERROR (''Error extracting comments for post '' @ i @ '': '') e
        \<in> set (logbook (snd (extract_comments env i k w)))) \<and>
   (\<forall>e. posts \<noteq> [] \<and> transform_steps posts = Inl e \<longrightarrow>
      LogExc ERROR ''Error transforming data: '' e
        \<in> set (logbook (snd (transform_data posts w))))"
proof -
  have a: "fst (init env w) = Inl e \<and> fst (main env w) = Inl e \<and>
      calls (snd (main env w)) = calls w @ [SetupDatabase] \<and>
      tbl_posts (snd (main env w)) = tbl_posts w \<and>
      tbl_comments (snd (main env w)) = tbl_comments w \<and>
      tbl_stats (snd (main env w)) = tbl_stats w \<and>
      LogExc ERROR ''Error setting up database: '' e \<in> set (logbook (snd (main env w)))"
    if f: "fst (setup_database env w) = Inl e" for e
  proof -
    from f have "\<not> db_ok env" "e = OperationalError"
      by (auto simp: setup_database_run split: if_splits)
    then show ?thesis
      using main_setup_fails[OF f] by (simp add: setup_database_run)
  qed
  have b: "fst (setup_database env w) = Inr () \<longleftrightarrow> db_ok env"
    by (simp add: setup_database_run)
  have c: "(\<forall>e. fst (setup_database env w) = Inl e \<longrightarrow>
      fst (init env w) = Inl e \<and> fst (main env w) = Inl e \<and>
      calls (snd (main env w)) = calls w @ [SetupDatabase] \<and>
      tbl_posts (snd (main env w)) = tbl_posts w \<and>
      tbl_comments (snd (main env w)) = tbl_comments w \<and>
      tbl_stats (snd (main env w)) = tbl_stats w \<and>
      LogExc ERROR ''Error setting up database: '' e \<in> set (logbook (snd (main env w)))) \<and>
   (fst (setup_database env w) = Inr () \<longleftrightarrow> db_ok env) \<and>
   fst (load_posts env df w) = Inr () \<and>
   fst (load_comments env cs w) = Inr () \<and>
   fst (generate_subreddit_stats env n w) = Inr () \<and>
   (\<exists>ps. fst (extract_posts env n l s w) = Inr ps) \<and>
   (\<exists>cs'. fst (extract_comments env i k w) = Inr cs') \<and>
   (\<exists>df'. fst (transform_data posts w) = Inr df')"
    using a b
    by (simp add: load_posts_fst load_comments_fst generate_subreddit_stats_fst extract_posts_fst
        extract_comments_fst transform_data_result)
  have d: "\<not> db_ok env \<longrightarrow>
      LogExc ERROR ''Error loading data: '' OperationalError
        \<in> set (logbook (snd (load_posts env df w))) \<and>
      (cs \<noteq> [] \<longrightarrow> LogExc ERROR ''Error loading comments: '' OperationalError
        \<in> set (logbook (snd (load_comments env cs w)))) \<and>
      LogExc ERROR ''Error generating statistics: '' OperationalError
        \<in> set (logbook (snd (generate_subreddit_stats env n w)))"
    using store_errors_logged by blast
  have e: "(\<forall>e. iterate_listing env (feed_of s) n l = Inl e \<longrightarrow>
      LogExc ERROR ''Error extracting posts: '' e
        \<in> set (logbook (snd (extract_posts env n l s w)))) \<and>
   (\<forall>e. comment_forest env i = Inl e \<longrightarrow>
      LogExc ERROR (''Error extracting comments for post '' @ i @ '': '') e
        \<in> set (logbook (snd (extract_comments env i k w)))) \<and>
   (\<forall>e. posts \<noteq> [] \<and> transform_steps posts = Inl e \<longrightarrow>
      LogExc ERROR ''Error transforming data: '' e
        \<in> set (logbook (snd (transform_data posts w))))"
    using extraction_errors_logged by blast
  from c d e show ?thesis by (intro conjI) blast+
qed


text \<open>The environment whose database cannot be opened, and the one where it can.\<close>

theorem schema_failure_propagates_witness:
  "fst (setup_database broken_env empty_world) = Inl OperationalError \<and>
   fst (main broken_env empty_world) = Inl OperationalError \<and>
   calls (snd (main broken_env empty_world)) = [SetupDatabase] \<and>
   LogExc ERROR ''Error setting up database: '' OperationalError
     \<in> set (logbook (snd (main broken_env empty_world))) \<and>
   fst (setup_database quiet_env empty_world) = Inr () \<and>
   fst (load_posts broken_env (returned_frame boundary_batch) empty_world) = Inr () \<and>
   fst (generate_subreddit_stats broken_env ''x'' empty_world) = Inr () \<and>
   LogExc ERROR ''Error loading data: '' OperationalError
     \<in> set (logbook (snd (load_posts broken_env (returned_frame boundary_batch) empty_world))) \<and>
   LogExc ERROR ''Error generating statistics: '' OperationalError
     \<in> set (logbook (snd (generate_subreddit_stats broken_env ''x'' empty_world)))"
proof -
  have f: "fst (setup_database broken_env empty_world) = Inl OperationalError"
    by (simp add: setup_database_run broken_env_def quiet_env_def)
  have ok: "db_ok quiet_env" by (simp add: quiet_env_def)
  have nd: "\<not> db_ok broken_env" by (simp add: broken_env_def quiet_env_def)
  note t = schema_failure_propagates[of broken_env empty_world "returned_frame boundary_batch" "[]" "''x''"]
  note q = schema_failure_propagates[of quiet_env empty_world]
  have c: "calls empty_world = []" by (simp add: empty_world_def)
  from t f have "fst (main broken_env empty_world) = Inl OperationalError"
    "calls (snd (main broken_env empty_world)) = [SetupDatabase]"
    "LogExc ERROR ''Error setting up database: '' OperationalError
       \<in> set (logbook (snd (main broken_env empty_world)))"
    "fst (load_posts broken_env (returned_frame boundary_batch) empty_world) = Inr ()"
    "fst (generate_subreddit_stats broken_env ''x'' empty_world) = Inr ()"
    by (simp_all add: c)
  moreover from t nd have
    "LogExc ERROR ''Error loading data: '' OperationalError
       \<in> set (logbook (snd (load_posts broken_env (returned_frame boundary_batch) empty_world)))"
    "LogExc ERROR ''Error generating statistics: '' OperationalError
       \<in> set (logbook (snd (generate_subreddit_stats broken_env ''x'' empty_world)))"
    by blast+
  moreover from q ok have "fst (setup_database quiet_env empty_world) = Inr ()" by blast
  ultimately show ?thesis using f by blast
qed

section \<open>Properties of the Source Adapter\<close>

subsection \<open>The comment listing\<close>

lemma prune_simps:
  "prune [] = []"
  "prune (Comment c replies # q) = Comment c (prune replies) # prune q"
  "prune (MoreComments hidden # q) = prune q"
  "prune (xs @ ys) = prune xs @ prune ys"
  by (simp_all add: prune_def)

lemma comments_data_bodies:
  "comments_data env post_id xs = map (comment_record env post_id) (bodies xs)"
  by (induction xs rule: bodies.induct) simp_all

lemma pruned_list:
  "list_all has_body (comments_list (prune q)) \<and> bodies (comments_list (prune q)) = visible q"
proof (induction q rule: visible.induct)
  case 1
  then show ?case by (simp add: prune_simps)
next
  case (2 c replies queue)
  then show ?case by (simp add: prune_simps)
next
  case (3 hidden queue)
  then show ?case by (simp add: prune_simps)
qed

lemma bodies_take: "list_all has_body xs \<Longrightarrow> bodies (take n xs) = take n (bodies xs)"
proof (induction xs arbitrary: n)
  case Nil
  then show ?case by simp
next
  case (Cons x xs)
  then show ?case by (cases x; cases n) simp_all
qed

lemma bodies_length: "list_all has_body xs \<Longrightarrow> length (bodies xs) = length xs"
proof (induction xs)
  case Nil
  then show ?case by simp
next
  case (Cons x xs)
  then show ?case by (cases x) simp_all
qed

lemma bodies_slice_to: "list_all has_body xs \<Longrightarrow> bodies (slice_to xs k) = slice_to (bodies xs) k"
  by (simp add: slice_to_def bodies_take bodies_length)

lemma slice_to_length: "0 \<le> k \<Longrightarrow> length (slice_to xs k) \<le> nat k"
  by (simp add: slice_to_def)

lemma returned_comments_visible:
  assumes "comment_forest env post_id = Inr forest"
  shows "returned_comments env post_id limit =
           map (comment_record env post_id) (slice_to (visible forest) limit)"
proof -
  have "returned_comments env post_id limit =
          comments_data env post_id (slice_to (comments_list (prune forest)) limit)"
    using assms by (simp add: returned_comments_def extract_comments_fst prune_def)
  also have "\<dots> = map (comment_record env post_id) (bodies (slice_to (comments_list (prune forest)) limit))"
    by (rule comments_data_bodies)
  also have "bodies (slice_to (comments_list (prune forest)) limit) = slice_to (visible forest) limit"
    using pruned_list[of forest] by (simp add: bodies_slice_to)
  finally show ?thesis .
qed

lemma returned_comments_failed:
  assumes "comment_forest env post_id = Inl e"
  shows "returned_comments env post_id limit = []"
    and "LogExc ERROR (''Error extracting comments for post '' @ post_id @ '': '') e
           \<in> set (logbook (snd (extract_comments env post_id limit w)))"
  using assms by (simp_all add: returned_comments_def extract_comments_fst extract_comments_def io_defs)

lemma thread_forest:
  "comment_forest thread_env ''p1'' =
     Inr [Comment (sample_comment ''c1'')
            [Comment (sample_comment ''c2'') [],
             MoreComments [Comment (sample_comment ''c4'') []]],
          MoreComments [Comment (sample_comment ''c3'') []]]"
  "comment_forest thread_env ''gone'' = Inl RequestException"
  by (simp_all add: thread_env_def)

lemma c_id_record: "c_id (comment_record env post_id c) = k_id c"
  by (simp add: comment_record_def)

text \<open>
  C8, as stated, fails: \<open>replace_more(limit=0)\<close> expands nothing. In the forest of \<open>p1\<close>
  the comments \<open>c3\<close> and \<open>c4\<close> lie in collapsed parts; the script returns \<open>c1\<close> and \<open>c2\<close>,
  the listing with full expansion would return all four.
\<close>

theorem collapsed_subtrees_are_dropped:
  "map c_id (returned_comments thread_env ''p1'' 20) = [''c1'', ''c2''] \<and>
   map c_id (listComments_spec thread_env ''p1'' 20) = [''c1'', ''c3'', ''c2'', ''c4''] \<and>
   returned_comments thread_env ''p1'' 20 \<noteq> listComments_spec thread_env ''p1'' 20"
proof -
  have a: "map c_id (returned_comments thread_env ''p1'' 20) = [''c1'', ''c2'']"
    by (simp add: returned_comments_visible[OF thread_forest(1)] slice_to_def c_id_record
        sample_comment_def)
  have b: "map c_id (listComments_spec thread_env ''p1'' 20) = [''c1'', ''c3'', ''c2'', ''c4'']"
    by (simp add: listComments_spec_def thread_forest slice_to_def c_id_record sample_comment_def)
  from a b have "returned_comments thread_env ''p1'' 20 \<noteq> listComments_spec thread_env ''p1'' 20"
    by auto
  with a b show ?thesis by blast
qed

text \<open>
  C8, amended. For every post identifier and limit, the comment listing never raises; it
  removes every collapsed part of the forest without expanding it, and returns the
  records of the comments outside the collapsed parts, breadth first, cut to the first
  \<open>limit\<close> of them (at most \<open>limit\<close> records for a limit that is not negative; a negative
  limit cuts from the end); on a failure of the request it logs the error and returns
  the empty sequence.
\<close>

theorem comments_listed_without_expansion:
  "fst (extract_comments env post_id limit w) = Inr (returned_comments env post_id limit) \<and>
   (\<forall>e. comment_forest env post_id = Inl e \<longrightarrow>
      returned_comments env post_id limit = [] \<and>
      LogExc ERROR (''Error extracting comments for post '' @ post_id @ '': '') e
        \<in> set (logbook (snd (extract_comments env post_id limit w)))) \<and>
   (\<forall>forest. comment_forest env post_id = Inr forest \<longrightarrow>
      returned_comments env post_id limit =
        map (comment_record env post_id) (slice_to (visible forest) limit)) \<and>
   (0 \<le> limit \<longrightarrow> length (returned_comments env post_id limit) \<le> nat limit)"
proof -
  have len: "length (returned_comments env post_id limit) \<le> nat limit" if "0 \<le> limit"
  proof (cases "comment_forest env post_id")
    case (Inl e)
    then show ?thesis by (simp add: returned_comments_failed)
  next
    case (Inr forest)
    then show ?thesis using that by (simp add: returned_comments_visible slice_to_length)
  qed
  show ?thesis
    using len returned_comments_failed returned_comments_visible extract_comments_returned
    by blast
qed

text \<open>A failing request, the forest of \<open>p1\<close> with limits 20 and 1.\<close>

theorem comments_listed_without_expansion_witness:
  "comment_forest thread_env ''gone'' = Inl RequestException \<and>
   fst (extract_comments thread_env ''gone'' 20 empty_world) = Inr [] \<and>
   comment_forest thread_env ''p1'' =
     Inr [Comment (sample_comment ''c1'')
            [Comment (sample_comment ''c2'') [],
             MoreComments [Comment (sample_comment ''c4'') []]],
          MoreComments [Comment (sample_comment ''c3'') []]] \<and>
   map c_id (projr (fst (extract_comments thread_env ''p1'' 20 empty_world))) = [''c1'', ''c2''] \<and>
   map c_id (projr (fst (extract_comments thread_env ''p1'' 1 empty_world))) = [''c1''] \<and>
   length (returned_comments thread_env ''p1'' 1) \<le> nat 1"
proof -
  note g = comments_listed_without_expansion[of thread_env "''gone''" 20 empty_world]
  note p = comments_listed_without_expansion[of thread_env "''p1''" 20 empty_world]
  note p1 = comments_listed_without_expansion[of thread_env "''p1''" 1 empty_world]
  have "fst (extract_comments thread_env ''gone'' 20 empty_world) = Inr []"
    using g thread_forest(2) by simp
  moreover have "map c_id (projr (fst (extract_comments thread_env ''p1'' 20 empty_world))) = [''c1'', ''c2'']"
    using p thread_forest(1) by (simp add: slice_to_def c_id_record sample_comment_def)
  moreover have "map c_id (projr (fst (extract_comments thread_env ''p1'' 1 empty_world))) = [''c1'']"
    using p1 thread_forest(1) by (simp add: slice_to_def c_id_record sample_comment_def)
  moreover have "length (returned_comments thread_env ''p1'' 1) \<le> nat 1"
    using p1 by simp
  ultimately show ?thesis using thread_forest by blast
qed

end
